theory Spec2Isabelle
  imports Main "HOL-Library.AList"
begin

section \<open>JavaScript values and strings\<close>

text \<open>
  A value produced by \<^verbatim>\<open>JSON.parse\<close>. An object is the list of its own properties;
  a property read is \<open>map_of\<close>, and \<open>None\<close> stands for \<^verbatim>\<open>undefined\<close>.
  Numbers are kept as integers: the code below only asks for their type and whether
  they are zero.
\<close>

datatype json =
    JNull
  | JBool bool
  | JNum int
  | JStr string
  | JArr "json list"
  | JObj "(string \<times> json) list"

type_synonym jobj = "(string \<times> json) list"

text \<open>Truthiness of a value (\<^verbatim>\<open>!!v\<close>), the operators \<^verbatim>\<open>a || d\<close> and \<^verbatim>\<open>a ?? d\<close>.\<close>

fun truthy :: "json \<Rightarrow> bool" where
  "truthy JNull = False"
| "truthy (JBool b) = b"
| "truthy (JNum n) = (n \<noteq> 0)"
| "truthy (JStr s) = (s \<noteq> [])"
| "truthy (JArr xs) = True"
| "truthy (JObj ps) = True"

definition js_or :: "json option \<Rightarrow> json \<Rightarrow> json" where
  "js_or v d = (case v of None \<Rightarrow> d | Some x \<Rightarrow> if truthy x then x else d)"

definition js_nullish :: "json option \<Rightarrow> json \<Rightarrow> json" where
  "js_nullish v d = (case v of None \<Rightarrow> d | Some JNull \<Rightarrow> d | Some x \<Rightarrow> x)"

text \<open>
  An object literal \<^verbatim>\<open>{k1: v1, ..., ...data}\<close>: the spread copies every own key of
  \<open>data\<close>, in order, reading the value from \<open>data\<close> and defining it on the target
  (the value of a key already there is replaced in place, a new key is appended).
\<close>

definition own_keys :: "jobj \<Rightarrow> string list" where
  "own_keys obj = remdups (map fst obj)"

definition copy_prop :: "jobj \<Rightarrow> jobj \<Rightarrow> string \<Rightarrow> jobj" where
  "copy_prop src tgt k = (case map_of src k of None \<Rightarrow> tgt | Some v \<Rightarrow> AList.update k v tgt)"

definition spread :: "jobj \<Rightarrow> jobj \<Rightarrow> jobj" where
  "spread tgt src = foldl (copy_prop src) tgt (own_keys src)"

text \<open>
  Strings are HOL strings; a character is a code unit below 256.
  \<^verbatim>\<open>toLowerCase\<close> on that range, the white space of \<^verbatim>\<open>trim\<close> and of \<^verbatim>\<open>\s\<close>.
\<close>

definition lower_char :: "char \<Rightarrow> char" where
  "lower_char c =
     (let n = (of_char c :: nat)
      in if 65 \<le> n \<and> n \<le> 90 then char_of (n + 32)
         else if 192 \<le> n \<and> n \<le> 222 \<and> n \<noteq> 215 then char_of (n + 32)
         else c)"

definition toLowerCase :: "string \<Rightarrow> string" where
  "toLowerCase s = map lower_char s"

definition is_space :: "char \<Rightarrow> bool" where
  "is_space c =
     (let n = (of_char c :: nat)
      in n = 9 \<or> n = 10 \<or> n = 11 \<or> n = 12 \<or> n = 13 \<or> n = 32 \<or> n = 160)"

definition trim :: "string \<Rightarrow> string" where
  "trim s = rev (dropWhile is_space (rev (dropWhile is_space s)))"

definition startsWith :: "string \<Rightarrow> string \<Rightarrow> bool" where
  "startsWith s p = (take (length p) s = p)"

definition endsWith :: "string \<Rightarrow> string \<Rightarrow> bool" where
  "endsWith s p = (length p \<le> length s \<and> drop (length s - length p) s = p)"

fun str_includes :: "string \<Rightarrow> string \<Rightarrow> bool" where
  "str_includes [] k = (k = [])"
| "str_includes (c # cs) k = (startsWith (c # cs) k \<or> str_includes cs k)"

text \<open>\<^verbatim>\<open>s.indexOf(k)\<close> and \<^verbatim>\<open>s.lastIndexOf(k)\<close>; \<open>None\<close> is \<^verbatim>\<open>-1\<close>.\<close>

fun indexOf :: "string \<Rightarrow> string \<Rightarrow> nat option" where
  "indexOf [] k = (if k = [] then Some 0 else None)"
| "indexOf (c # cs) k =
     (if startsWith (c # cs) k then Some 0
      else (case indexOf cs k of None \<Rightarrow> None | Some i \<Rightarrow> Some (Suc i)))"

fun lastIndexOf :: "string \<Rightarrow> string \<Rightarrow> nat option" where
  "lastIndexOf [] k = (if k = [] then Some 0 else None)"
| "lastIndexOf (c # cs) k =
     (case lastIndexOf cs k of
        Some i \<Rightarrow> Some (Suc i)
      | None \<Rightarrow> if startsWith (c # cs) k then Some 0 else None)"

definition substring :: "string \<Rightarrow> nat \<Rightarrow> nat \<Rightarrow> string" where
  "substring s i j = (if i \<le> j then take (j - i) (drop i s) else take (i - j) (drop j s))"

section \<open>Roles and validation results (json-validator.ts)\<close>

datatype agent_type = Planner | Navigator | Unknown

datatype expected_type = ExpPlanner | ExpNavigator | Auto

record ValidationResult =
  isValid :: bool
  originalResponse :: string
  parsedJson :: "jobj option"
  validatedData :: "jobj option"
  errors :: "string list"
  agentType :: agent_type
  correctedResponse :: "jobj option"

subsection \<open>detectAgentType\<close>

definition navigatorKeywords :: "string list" where
  "navigatorKeywords =
     [''current_state'', ''action'', ''evaluation_previous_goal'', ''memory'', ''next_goal'',
      ''click_element'', ''go_to_url'', ''input_text'', ''done'', ''navigate'', ''browser'']"

definition plannerKeywords :: "string list" where
  "plannerKeywords =
     [''observation'', ''challenges'', ''next_steps'', ''final_answer'', ''reasoning'', ''web_task'']"

definition keywordScore :: "string list \<Rightarrow> string \<Rightarrow> nat" where
  "keywordScore keywords lowerResponse = length (filter (str_includes lowerResponse) keywords)"

definition detectAgentType :: "string \<Rightarrow> string option \<Rightarrow> agent_type" where
  "detectAgentType response context =
     (let lowerResponse = toLowerCase response;
          lowerContext = (case context of None \<Rightarrow> [] | Some c \<Rightarrow> toLowerCase c)
      in if str_includes lowerContext ''navigator'' \<or> str_includes lowerContext ''L9.'' then Navigator
         else if str_includes lowerContext ''planner'' \<or> str_includes lowerContext ''D9.'' then Planner
         else if keywordScore plannerKeywords lowerResponse
                   < keywordScore navigatorKeywords lowerResponse
         then Navigator else Planner)"

subsection \<open>Errors\<close>

text \<open>
  The exceptions that travel through the code, each with its message. \<open>PlainError\<close> is
  \<^verbatim>\<open>new Error(msg)\<close>, \<open>SyntaxError\<close> is what \<^verbatim>\<open>JSON.parse\<close> throws, \<open>AbortError\<close> is
  the error of an aborted request, \<open>LibraryError\<close> is an error of a class of some
  library, with the name it carries; the others are the classes that the executor tells
  apart with \<^verbatim>\<open>instanceof\<close>.
\<close>

datatype js_error =
    PlainError string
  | SyntaxError string
  | TypeError string
  | AbortError string
  | LibraryError string string
  | ChatModelAuthError string
  | ChatModelForbiddenError string
  | URLNotAllowedError string
  | RequestCancelledError string
  | ExtensionConflictError string

fun message :: "js_error \<Rightarrow> string" where
  "message (PlainError m) = m"
| "message (SyntaxError m) = m"
| "message (TypeError m) = m"
| "message (AbortError m) = m"
| "message (LibraryError n m) = m"
| "message (ChatModelAuthError m) = m"
| "message (ChatModelForbiddenError m) = m"
| "message (URLNotAllowedError m) = m"
| "message (RequestCancelledError m) = m"
| "message (ExtensionConflictError m) = m"

fun error_name :: "js_error \<Rightarrow> string" where
  "error_name (PlainError m) = ''Error''"
| "error_name (SyntaxError m) = ''SyntaxError''"
| "error_name (TypeError m) = ''TypeError''"
| "error_name (AbortError m) = ''AbortError''"
| "error_name (LibraryError n m) = n"
| "error_name (ChatModelAuthError m) = ''ChatModelAuthError''"
| "error_name (ChatModelForbiddenError m) = ''ChatModelForbiddenError''"
| "error_name (URLNotAllowedError m) = ''URLNotAllowedError''"
| "error_name (RequestCancelledError m) = ''RequestCancelledError''"
| "error_name (ExtensionConflictError m) = ''ExtensionConflictError''"

text \<open>
  \<^verbatim>\<open>`${error}`\<close>, which is \<^verbatim>\<open>Error.prototype.toString\<close>: the name, a colon and the
  message, or the one of the two that is not empty.
\<close>

definition error_to_string :: "js_error \<Rightarrow> string" where
  "error_to_string e =
     (if error_name e = [] then message e
      else if message e = [] then error_name e
      else error_name e @ '': '' @ message e)"

text \<open>
  What \<^verbatim>\<open>parse\<close> of a schema throws: a \<open>ZodError\<close> with the issues, each a path and a
  message, or the error that a transform of the schema threw. Every call of
  \<^verbatim>\<open>parse\<close> sits in a \<^verbatim>\<open>try\<close> whose \<^verbatim>\<open>catch\<close> reads the issues or throws a new
  error in its place.
\<close>

datatype schema_error =
    ZodError "(string \<times> string) list"
  | OtherError js_error

subsection \<open>The schemas\<close>

text \<open>
  A zod schema is modelled by the list of issues it raises on a value, each a path and a
  message; \<^verbatim>\<open>parse\<close> throws a \<open>ZodError\<close> with them unless the list is empty.
\<close>

fun zodTypeName :: "json option \<Rightarrow> string" where
  "zodTypeName None = ''undefined''"
| "zodTypeName (Some JNull) = ''null''"
| "zodTypeName (Some (JBool b)) = ''boolean''"
| "zodTypeName (Some (JNum n)) = ''number''"
| "zodTypeName (Some (JStr s)) = ''string''"
| "zodTypeName (Some (JArr xs)) = ''array''"
| "zodTypeName (Some (JObj ps)) = ''object''"

definition invalidType :: "string \<Rightarrow> string \<Rightarrow> json option \<Rightarrow> (string \<times> string) list" where
  "invalidType path expected v =
     (if v = None then [(path, ''Required'')]
      else [(path, ''Expected '' @ expected @ '', received '' @ zodTypeName v)])"

fun zodString :: "string \<Rightarrow> json option \<Rightarrow> (string \<times> string) list" where
  "zodString path (Some (JStr s)) = []"
| "zodString path v = invalidType path ''string'' v"

fun zodBoolean :: "string \<Rightarrow> json option \<Rightarrow> (string \<times> string) list" where
  "zodBoolean path (Some (JBool b)) = []"
| "zodBoolean path v = invalidType path ''boolean'' v"

fun zodStringNullable :: "string \<Rightarrow> json option \<Rightarrow> (string \<times> string) list" where
  "zodStringNullable path (Some JNull) = []"
| "zodStringNullable path v = zodString path v"

fun zodBooleanOrString :: "string \<Rightarrow> json option \<Rightarrow> (string \<times> string) list" where
  "zodBooleanOrString path (Some (JBool b)) = []"
| "zodBooleanOrString path (Some (JStr s)) = []"
| "zodBooleanOrString path v = [(path, ''Invalid input'')]"

definition plannerSchema :: "jobj \<Rightarrow> (string \<times> string) list" where
  "plannerSchema data =
     zodString ''observation'' (map_of data ''observation'')
     @ zodBoolean ''done'' (map_of data ''done'')
     @ zodString ''challenges'' (map_of data ''challenges'')
     @ zodString ''next_steps'' (map_of data ''next_steps'')
     @ zodStringNullable ''final_answer'' (map_of data ''final_answer'')
     @ zodString ''reasoning'' (map_of data ''reasoning'')
     @ zodBooleanOrString ''web_task'' (map_of data ''web_task'')"

text \<open>
  Modelled from the spec: \<^verbatim>\<open>agentBrainSchema\<close> is imported from \<^verbatim>\<open>../types\<close>, which is
  not among the sources. The spec gives \<open>current_state\<close> as an object with the three
  string fields \<open>evaluation_previous_goal\<close>, \<open>memory\<close> and \<open>next_goal\<close>.
\<close>

fun agentBrainSchema :: "string \<Rightarrow> json option \<Rightarrow> (string \<times> string) list" where
  "agentBrainSchema path (Some (JObj ps)) =
     zodString (path @ ''.evaluation_previous_goal'') (map_of ps ''evaluation_previous_goal'')
     @ zodString (path @ ''.memory'') (map_of ps ''memory'')
     @ zodString (path @ ''.next_goal'') (map_of ps ''next_goal'')"
| "agentBrainSchema path v = invalidType path ''object'' v"

text \<open>\<^verbatim>\<open>z.record(z.string(), z.any())\<close>: any object; \<^verbatim>\<open>z.array\<close> of them, by index.\<close>

fun zodRecordAny :: "string \<Rightarrow> json option \<Rightarrow> (string \<times> string) list" where
  "zodRecordAny path (Some (JObj ps)) = []"
| "zodRecordAny path v = invalidType path ''object'' v"

fun showNat :: "nat \<Rightarrow> string" where
  "showNat n =
     (if n < 10 then [char_of (48 + n)] else showNat (n div 10) @ [char_of (48 + n mod 10)])"

fun zodRecordElems :: "string \<Rightarrow> nat \<Rightarrow> json list \<Rightarrow> (string \<times> string) list" where
  "zodRecordElems path i [] = []"
| "zodRecordElems path i (x # xs) =
     zodRecordAny (path @ ''.'' @ showNat i) (Some x) @ zodRecordElems path (Suc i) xs"

fun zodArrayOfRecords :: "string \<Rightarrow> json option \<Rightarrow> (string \<times> string) list" where
  "zodArrayOfRecords path (Some (JArr xs)) = zodRecordElems path 0 xs"
| "zodArrayOfRecords path v = invalidType path ''array'' v"

definition navigatorSchema :: "jobj \<Rightarrow> (string \<times> string) list" where
  "navigatorSchema data =
     agentBrainSchema ''current_state'' (map_of data ''current_state'')
     @ zodArrayOfRecords ''action'' (map_of data ''action'')"

definition zodParse :: "(string \<times> string) list \<Rightarrow> schema_error + unit" where
  "zodParse issues = (if issues = [] then Inr () else Inl (ZodError issues))"

subsection \<open>validateAgainstSchema, fixInvalidJSON, createFallbackResponse\<close>

record SchemaValidation =
  schemaSuccess :: bool
  schemaErrors :: "string list"

text \<open>
  The body of the \<^verbatim>\<open>try\<close>: \<open>Inr True\<close> is a \<^verbatim>\<open>return\<close> from inside it, \<open>Inr False\<close>
  is falling out of it (an agent type that is neither), \<open>Inl\<close> is a throw.
\<close>

definition schemaTry :: "jobj \<Rightarrow> agent_type \<Rightarrow> schema_error + bool" where
  "schemaTry data ty =
     (if ty = Planner then
        (case zodParse (plannerSchema data) of Inl e \<Rightarrow> Inl e | Inr u \<Rightarrow> Inr True)
      else if ty = Navigator then
        (case zodParse (navigatorSchema data) of Inl e \<Rightarrow> Inl e | Inr u \<Rightarrow> Inr True)
      else Inr False)"

definition validateAgainstSchema :: "jobj \<Rightarrow> agent_type \<Rightarrow> SchemaValidation" where
  "validateAgainstSchema data ty =
     (case schemaTry data ty of
        Inr True \<Rightarrow> \<lparr>schemaSuccess = True, schemaErrors = []\<rparr>
      | Inr False \<Rightarrow> \<lparr>schemaSuccess = False, schemaErrors = [''Unknown agent type'']\<rparr>
      | Inl (ZodError issues) \<Rightarrow>
          \<lparr>schemaSuccess = False, schemaErrors = map (\<lambda>(p, m). p @ '': '' @ m) issues\<rparr>
      | Inl (OtherError e) \<Rightarrow> \<lparr>schemaSuccess = False, schemaErrors = [message e]\<rparr>)"

definition defaultGoToUrl :: "string \<Rightarrow> string \<Rightarrow> json" where
  "defaultGoToUrl intent url =
     JObj [(''go_to_url'', JObj [(''intent'', JStr intent), (''url'', JStr url)])]"

definition fixInvalidJSON :: "jobj \<Rightarrow> agent_type \<Rightarrow> jobj" where
  "fixInvalidJSON data ty =
     (if ty = Planner then
        spread
          [(''observation'',
              js_or (map_of data ''observation'') (JStr ''AI response received but incomplete'')),
           (''done'', js_nullish (map_of data ''done'') (JBool False)),
           (''challenges'', js_or (map_of data ''challenges'') (JStr [])),
           (''next_steps'',
              js_or (map_of data ''next_steps'') (JStr ''Continue with task execution'')),
           (''final_answer'', js_or (map_of data ''final_answer'') (JStr [])),
           (''reasoning'', js_or (map_of data ''reasoning'') (JStr ''Processing user request'')),
           (''web_task'', js_nullish (map_of data ''web_task'') (JBool True))]
          data
      else
        spread
          [(''current_state'',
              js_or (map_of data ''current_state'')
                (JObj [(''evaluation_previous_goal'', JStr ''Unknown - processing request''),
                       (''memory'', JStr ''Received AI response''),
                       (''next_goal'', JStr ''Continue task execution'')])),
           (''action'',
              js_or (map_of data ''action'')
                (JArr [defaultGoToUrl ''Navigate to requested website''
                         ''https://www.google.com'']))]
          data)"

definition createFallbackResponse :: "agent_type \<Rightarrow> string \<Rightarrow> jobj" where
  "createFallbackResponse ty response =
     (let responseSnippet = trim (substring response 0 200)
      in if ty = Planner then
           [(''observation'', JStr (''AI returned non-JSON response: '' @ responseSnippet)),
            (''done'', JBool False),
            (''challenges'', JStr ''AI model returned plain text instead of structured JSON''),
            (''next_steps'', JStr ''Continue with task using available actions''),
            (''final_answer'', JStr []),
            (''reasoning'', JStr ''Creating fallback response due to JSON parsing failure''),
            (''web_task'', JBool True)]
         else
           [(''current_state'',
               JObj [(''evaluation_previous_goal'',
                        JStr ''Unknown - AI response was not in JSON format''),
                     (''memory'', JStr (''AI response: '' @ responseSnippet)),
                     (''next_goal'', JStr ''Continue with task execution'')]),
            (''action'', JArr [defaultGoToUrl ''Navigate as requested'' ''https://www.google.com''])])"

subsection \<open>extractJSON\<close>

text \<open>
  \<^verbatim>\<open>JSON.parse\<close> is the runtime's; it is a parameter here. Every text the code hands
  to it begins with an opening brace, so a successful parse is an object; a failure is the
  \<open>SyntaxError\<close> it throws.
\<close>

type_synonym parser = "string \<Rightarrow> js_error + jobj"

text \<open>
  The code-block pattern: three backticks, an optional \<^verbatim>\<open>json\<close>, white space, then
  the group, an opening brace followed by the shortest text that ends in a closing brace
  with only white space before the next three backticks. \<^verbatim>\<open>exec\<close> gives the group of
  the leftmost match.
\<close>

definition backticks :: string where
  "backticks = [CHR 0x60, CHR 0x60, CHR 0x60]"

fun lazyBody :: "string \<Rightarrow> string option" where
  "lazyBody [] = None"
| "lazyBody (c # cs) =
     (if c = CHR ''}'' \<and> startsWith (dropWhile is_space cs) backticks then Some [c]
      else map_option ((#) c) (lazyBody cs))"

definition codeBlockAt :: "string \<Rightarrow> string option" where
  "codeBlockAt s =
     (if startsWith s backticks then
        (let r1 = drop 3 s;
             r2 = (if startsWith r1 ''json'' then drop 4 r1 else r1)
         in case dropWhile is_space r2 of
              [] \<Rightarrow> None
            | c # rest \<Rightarrow> if c = CHR ''{'' then map_option ((#) c) (lazyBody rest) else None)
      else None)"

fun codeBlockExec :: "string \<Rightarrow> string option" where
  "codeBlockExec [] = None"
| "codeBlockExec (c # cs) =
     (case codeBlockAt (c # cs) of Some g \<Rightarrow> Some g | None \<Rightarrow> codeBlockExec cs)"

text \<open>
  The brace pattern: an opening brace, text without braces, any number of inner
  brace pairs (no braces inside) each followed by text without braces, and a closing
  brace. \<open>jsonScan inner cs\<close> reads on after the opening brace and returns the rest of
  the match; \<open>jsonMatches\<close> is \<^verbatim>\<open>response.match\<close> with the global flag.
\<close>

fun jsonScan :: "bool \<Rightarrow> string \<Rightarrow> string option" where
  "jsonScan inner [] = None"
| "jsonScan inner (c # cs) =
     (if inner then
        (if c = CHR ''}'' then map_option ((#) c) (jsonScan False cs)
         else if c = CHR ''{'' then None
         else map_option ((#) c) (jsonScan True cs))
      else
        (if c = CHR ''}'' then Some [c]
         else if c = CHR ''{'' then map_option ((#) c) (jsonScan True cs)
         else map_option ((#) c) (jsonScan False cs)))"

fun jsonMatches :: "string \<Rightarrow> string list" where
  "jsonMatches [] = []"
| "jsonMatches (c # cs) =
     (if c = CHR ''{'' then
        (case jsonScan False cs of
           Some m \<Rightarrow> (c # m) # jsonMatches (drop (length m) cs)
         | None \<Rightarrow> jsonMatches cs)
      else jsonMatches cs)"

definition looksLikeAgentResponse :: "jobj \<Rightarrow> bool" where
  "looksLikeAgentResponse record =
     (if map_of record ''current_state'' \<noteq> None \<and> map_of record ''action'' \<noteq> None then True
      else if map_of record ''observation'' \<noteq> None \<and> map_of record ''done'' \<noteq> None then True
      else False)"

text \<open>The replacements of \<^verbatim>\<open>repairJSON\<close>.\<close>

definition removeControl :: "string \<Rightarrow> string" where
  "removeControl s =
     filter (\<lambda>c. \<not> ((of_char c :: nat) \<le> 31 \<or> (127 \<le> (of_char c :: nat) \<and> (of_char c :: nat) \<le> 159))) s"

function dropTrailingCommas :: "char \<Rightarrow> string \<Rightarrow> string" where
  "dropTrailingCommas close [] = []"
| "dropTrailingCommas close (c # cs) =
     (if c = CHR '','' \<and> startsWith (dropWhile is_space cs) [close]
      then close # dropTrailingCommas close (tl (dropWhile is_space cs))
      else c # dropTrailingCommas close cs)"
  by pat_completeness auto
termination
  by (relation "measure (\<lambda>(close, s). length s)")
     (auto simp: less_Suc_eq_le intro!: le_trans [OF diff_le_self length_dropWhile_le])

definition singleToDoubleQuotes :: "string \<Rightarrow> string" where
  "singleToDoubleQuotes s = map (\<lambda>c. if c = CHR 0x27 then CHR 0x22 else c) s"

definition repairJSON :: "parser \<Rightarrow> string \<Rightarrow> jobj option" where
  "repairJSON parse text =
     (let cleaned =
            trim (singleToDoubleQuotes
              (dropTrailingCommas (CHR '']'')
                (dropTrailingCommas (CHR ''}'') (removeControl text))))
      in case (indexOf cleaned ''{'', lastIndexOf cleaned ''}'') of
           (Some start, Some end) \<Rightarrow>
             (if start < end then
                (case parse (substring cleaned start (end + 1)) of
                   Inr parsed \<Rightarrow> Some parsed
                 | Inl e \<Rightarrow> None)
              else None)
         | _ \<Rightarrow> None)"

record Extraction =
  exSuccess :: bool
  exData :: "jobj option"
  exErrors :: "string list"

text \<open>
  A strategy either returns the record from \<^verbatim>\<open>extractJSON\<close> (\<open>Found\<close>) or goes on
  with the errors pushed so far.
\<close>

datatype strategy = Found jobj | GoOn "string list"

definition directParse :: "parser \<Rightarrow> string \<Rightarrow> strategy" where
  "directParse parse response =
     (let trimmed = trim response
      in if startsWith trimmed ''{'' \<and> endsWith trimmed ''}'' then
           (case parse trimmed of
              Inr parsed \<Rightarrow> Found parsed
            | Inl e \<Rightarrow> GoOn [''Direct parse failed: '' @ message e])
         else GoOn [])"

definition codeBlockParse :: "parser \<Rightarrow> string \<Rightarrow> string list \<Rightarrow> strategy" where
  "codeBlockParse parse response errs =
     (case codeBlockExec response of
        None \<Rightarrow> GoOn errs
      | Some g \<Rightarrow>
          (case parse g of
             Inr parsed \<Rightarrow> Found parsed
           | Inl e \<Rightarrow> GoOn (errs @ [''Code block parse failed: '' @ message e])))"

fun regexParse :: "parser \<Rightarrow> string list \<Rightarrow> string list \<Rightarrow> strategy" where
  "regexParse parse [] errs = GoOn errs"
| "regexParse parse (m # ms) errs =
     (case parse m of
        Inr parsed \<Rightarrow>
          if looksLikeAgentResponse parsed then Found parsed else regexParse parse ms errs
      | Inl e \<Rightarrow> regexParse parse ms (errs @ [''Regex match parse failed: '' @ message e]))"

definition repairParse :: "parser \<Rightarrow> string \<Rightarrow> string list \<Rightarrow> strategy" where
  "repairParse parse response errs =
     (case repairJSON parse response of Some repaired \<Rightarrow> Found repaired | None \<Rightarrow> GoOn errs)"

definition extractJSON :: "parser \<Rightarrow> string \<Rightarrow> Extraction" where
  "extractJSON parse response =
     (let found = (\<lambda>d. \<lparr>exSuccess = True, exData = Some d, exErrors = []\<rparr>)
      in case directParse parse response of
           Found d \<Rightarrow> found d
         | GoOn e1 \<Rightarrow>
        (case codeBlockParse parse response e1 of
           Found d \<Rightarrow> found d
         | GoOn e2 \<Rightarrow>
        (case regexParse parse (jsonMatches response) e2 of
           Found d \<Rightarrow> found d
         | GoOn e3 \<Rightarrow>
        (case repairParse parse response e3 of
           Found d \<Rightarrow> found d
         | GoOn e4 \<Rightarrow> \<lparr>exSuccess = False, exData = None, exErrors = e4\<rparr>))))"

subsection \<open>validateResponse\<close>

definition resolveAgentType :: "string \<Rightarrow> expected_type \<Rightarrow> string option \<Rightarrow> agent_type" where
  "resolveAgentType rawResponse expectedType context =
     (case expectedType of
        Auto \<Rightarrow> detectAgentType rawResponse context
      | ExpPlanner \<Rightarrow> Planner
      | ExpNavigator \<Rightarrow> Navigator)"

definition validateResponse ::
  "parser \<Rightarrow> string \<Rightarrow> expected_type \<Rightarrow> string option \<Rightarrow> ValidationResult" where
  "validateResponse parse rawResponse expectedType context =
     (let result = \<lparr>isValid = False, originalResponse = rawResponse, parsedJson = None,
                     validatedData = None, errors = [], agentType = Unknown,
                     correctedResponse = None\<rparr>;
          result = result\<lparr>agentType := resolveAgentType rawResponse expectedType context\<rparr>;
          jsonExtractionResult = extractJSON parse rawResponse
      in if \<not> exSuccess jsonExtractionResult then
           (let fallback = createFallbackResponse (agentType result) rawResponse
            in result\<lparr>errors := errors result @ exErrors jsonExtractionResult,
                      correctedResponse := Some fallback,
                      validatedData := Some fallback,
                      isValid := True\<rparr>)
         else
           (case exData jsonExtractionResult of
              None \<Rightarrow>
                (let fallback = createFallbackResponse (agentType result) rawResponse
                 in result\<lparr>errors := errors result @ [''No parsed JSON available''],
                           correctedResponse := Some fallback,
                           validatedData := Some fallback,
                           isValid := True\<rparr>)
            | Some parsed \<Rightarrow>
                (let result = result\<lparr>parsedJson := Some parsed\<rparr>;
                     schemaValidation = validateAgainstSchema parsed (agentType result)
                 in if \<not> schemaSuccess schemaValidation then
                      (let fixed = fixInvalidJSON parsed (agentType result)
                       in result\<lparr>errors := errors result @ schemaErrors schemaValidation,
                                 correctedResponse := Some fixed,
                                 validatedData := Some fixed,
                                 isValid := True\<rparr>)
                    else result\<lparr>isValid := True, validatedData := Some parsed\<rparr>)))"

section \<open>The response monitor (json-monitor.ts)\<close>

record JSONResponseMonitor =
  responseCount :: nat
  successCount :: nat
  correctionCount :: nat
  failureCount :: nat
  monitoringActive :: bool

definition newMonitor :: JSONResponseMonitor where
  "newMonitor = \<lparr>responseCount = 0, successCount = 0, correctionCount = 0, failureCount = 0,
                  monitoringActive = True\<rparr>"

subsection \<open>Reading values in the audits\<close>

text \<open>
  Reading a property throws a \<open>TypeError\<close> on \<^verbatim>\<open>null\<close> and \<^verbatim>\<open>undefined\<close>. An array
  has its indices and \<open>length\<close>, a string too; the names read below are not found on a
  number or a boolean. The \<^verbatim>\<open>in\<close> operator throws on anything that is not an object.
\<close>

definition arrayProps :: "json list \<Rightarrow> jobj" where
  "arrayProps xs = zip (map showNat [0..<length xs]) xs"

fun readField :: "json option \<Rightarrow> string \<Rightarrow> js_error + json option" where
  "readField None k = Inl (TypeError ''Cannot read properties of undefined'')"
| "readField (Some JNull) k = Inl (TypeError ''Cannot read properties of null'')"
| "readField (Some (JObj ps)) k = Inr (map_of ps k)"
| "readField (Some (JArr xs)) k =
     Inr (if k = ''length'' then Some (JNum (int (length xs))) else map_of (arrayProps xs) k)"
| "readField (Some (JStr s)) k =
     Inr (if k = ''length'' then Some (JNum (int (length s)))
          else map_of (arrayProps (map (\<lambda>c. JStr [c]) s)) k)"
| "readField (Some (JBool b)) k = Inr None"
| "readField (Some (JNum n)) k = Inr None"

fun inOperator :: "string \<Rightarrow> json \<Rightarrow> js_error + bool" where
  "inOperator k (JObj ps) = Inr (map_of ps k \<noteq> None)"
| "inOperator k (JArr xs) = Inr (k = ''length'' \<or> map_of (arrayProps xs) k \<noteq> None)"
| "inOperator k v = Inl (TypeError ''Cannot use in operator'')"

definition truthyV :: "json option \<Rightarrow> bool" where
  "truthyV v = (case v of None \<Rightarrow> False | Some x \<Rightarrow> truthy x)"

fun typeofV :: "json option \<Rightarrow> string" where
  "typeofV None = ''undefined''"
| "typeofV (Some JNull) = ''object''"
| "typeofV (Some (JBool b)) = ''boolean''"
| "typeofV (Some (JNum n)) = ''number''"
| "typeofV (Some (JStr s)) = ''string''"
| "typeofV (Some (JArr xs)) = ''object''"
| "typeofV (Some (JObj ps)) = ''object''"

text \<open>\<^verbatim>\<open>Object.keys\<close> of a value whose \<^verbatim>\<open>typeof\<close> is \<open>object\<close> and that is not \<^verbatim>\<open>null\<close>.\<close>

fun objectKeys :: "json \<Rightarrow> string list" where
  "objectKeys (JObj ps) = own_keys ps"
| "objectKeys (JArr xs) = map showNat [0..<length xs]"
| "objectKeys v = []"

subsection \<open>The audits\<close>

text \<open>
  An audit writes to the console and returns nothing; here it returns the lines it
  writes (without the response id), or the exception it throws.
\<close>

definition andThen ::
  "js_error + string list \<Rightarrow> (js_error + string list) \<Rightarrow> js_error + string list" where
  "andThen a b =
     (case a of
        Inl e \<Rightarrow> Inl e
      | Inr l1 \<Rightarrow> (case b of Inl e \<Rightarrow> Inl e | Inr l2 \<Rightarrow> Inr (l1 @ l2)))"

definition actionTypeChecks :: "string \<Rightarrow> json option \<Rightarrow> js_error + string list" where
  "actionTypeChecks actionType actionData =
     (if actionType = ''go_to_url'' then
        (case readField actionData ''url'' of
           Inl e \<Rightarrow> Inl e
         | Inr url \<Rightarrow>
             Inr (if truthyV url \<and> typeofV url = ''string'' then []
                  else [''go_to_url action missing valid URL'']))
      else if actionType = ''done'' then
        (case readField actionData ''text'' of
           Inl e \<Rightarrow> Inl e
         | Inr txt \<Rightarrow>
             (if truthyV txt then
                (case readField actionData ''success'' of
                   Inl e \<Rightarrow> Inl e
                 | Inr success \<Rightarrow>
                     Inr (if typeofV success = ''boolean'' then []
                          else [''done action missing text or success'']))
              else Inr [''done action missing text or success'']))
      else if actionType = ''click_element'' then
        (case readField actionData ''index'' of
           Inl e \<Rightarrow> Inl e
         | Inr index \<Rightarrow>
             Inr (if typeofV index = ''number'' then []
                  else [''click_element action missing valid index'']))
      else Inr [])"

definition validateAction :: "json \<Rightarrow> nat \<Rightarrow> js_error + string list" where
  "validateAction action index =
     (if truthy action \<and> typeofV (Some action) = ''object'' then
        (case objectKeys action of
           [actionType] \<Rightarrow>
             (case readField (Some action) actionType of
                Inl e \<Rightarrow> Inl e
              | Inr actionData \<Rightarrow>
                  (if truthyV actionData \<and> typeofV actionData = ''object'' then
                     (case readField actionData ''intent'' of
                        Inl e \<Rightarrow> Inl e
                      | Inr intent \<Rightarrow>
                          andThen
                            (Inr ([''Action '' @ showNat index @ '': '' @ actionType]
                                  @ (if truthyV intent then []
                                     else [''Action '' @ showNat index @ '' missing intent''])))
                            (actionTypeChecks actionType actionData))
                   else Inr [''Action '' @ showNat index @ '': '' @ actionType,
                             ''Action '' @ showNat index @ '' data is invalid'']))
         | actionKeys \<Rightarrow> Inr [''Action '' @ showNat index @ '' should have exactly one key''])
      else Inr [''Action '' @ showNat index @ '' is not an object''])"

fun forEachAction :: "json list \<Rightarrow> nat \<Rightarrow> js_error + string list" where
  "forEachAction [] index = Inr []"
| "forEachAction (action # rest) index =
     andThen (validateAction action index) (forEachAction rest (Suc index))"

definition currentStateChecks :: "jobj \<Rightarrow> js_error + string list" where
  "currentStateChecks data =
     (let state = map_of data ''current_state''
      in if truthyV state then
           (case readField state ''evaluation_previous_goal'' of
              Inl e \<Rightarrow> Inl e
            | Inr g \<Rightarrow>
           if truthyV g then
             (case readField state ''memory'' of
                Inl e \<Rightarrow> Inl e
              | Inr m \<Rightarrow>
             if truthyV m then
               (case readField state ''next_goal'' of
                  Inl e \<Rightarrow> Inl e
                | Inr n \<Rightarrow>
                    Inr (if truthyV n then []
                         else [''Navigator current_state missing required fields'']))
             else Inr [''Navigator current_state missing required fields''])
           else Inr [''Navigator current_state missing required fields''])
         else Inr [''Navigator missing current_state''])"

definition validateNavigatorResponse :: "jobj \<Rightarrow> js_error + string list" where
  "validateNavigatorResponse data =
     andThen (currentStateChecks data)
       (case map_of data ''action'' of
          Some (JArr actions) \<Rightarrow>
            andThen (Inr [''Navigator has '' @ showNat (length actions) @ '' actions''])
              (forEachAction actions 0)
        | other \<Rightarrow> Inr [''Navigator missing or invalid action array''])"

definition requiredFields :: "string list" where
  "requiredFields =
     [''observation'', ''done'', ''challenges'', ''next_steps'', ''final_answer'', ''reasoning'',
      ''web_task'']"

fun missingFields :: "string list \<Rightarrow> jobj \<Rightarrow> js_error + string list" where
  "missingFields [] data = Inr []"
| "missingFields (field # rest) data =
     (case inOperator field (JObj data) of
        Inl e \<Rightarrow> Inl e
      | Inr present \<Rightarrow>
          (case missingFields rest data of
             Inl e \<Rightarrow> Inl e
           | Inr missing \<Rightarrow> Inr (if present then missing else field # missing)))"

definition validatePlannerResponse :: "jobj \<Rightarrow> js_error + string list" where
  "validatePlannerResponse data =
     (case missingFields requiredFields data of
        Inl e \<Rightarrow> Inl e
      | Inr missing \<Rightarrow>
          Inr ((if missing = [] then [''Planner has all required fields'']
                else [''Planner missing required fields: '' @ concat missing])
               @ (if typeofV (map_of data ''done'') = ''boolean'' then []
                  else [''Planner done should be boolean''])
               @ (if map_of data ''final_answer'' = Some JNull then []
                  else if typeofV (map_of data ''final_answer'') = ''string'' then []
                  else [''Planner final_answer should be string or null''])))"

definition validateCommonIssues :: "jobj \<Rightarrow> js_error + string list" where
  "validateCommonIssues data =
     Inr (concat (map (\<lambda>k. case map_of data k of
                             Some (JStr s) \<Rightarrow>
                               if trim s = [] then [''Property '' @ k @ '' is empty string'']
                               else []
                           | other \<Rightarrow> [])
                      (own_keys data)))"

definition performAdditionalChecks :: "ValidationResult \<Rightarrow> js_error + string list" where
  "performAdditionalChecks result =
     (case validatedData result of
        None \<Rightarrow> Inr [''No validated data available'']
      | Some data \<Rightarrow>
          andThen
            (if agentType result = Navigator then validateNavigatorResponse data else Inr [])
            (andThen
              (if agentType result = Planner then validatePlannerResponse data else Inr [])
              (validateCommonIssues data)))"

subsection \<open>monitorResponse\<close>

definition createBypassResult :: "string \<Rightarrow> ValidationResult" where
  "createBypassResult response =
     \<lparr>isValid = True, originalResponse = response, parsedJson = None,
      validatedData = Some [(''bypass'', JBool True)], errors = [], agentType = Unknown,
      correctedResponse = None\<rparr>"

definition monitorEmergencyFallback :: "agent_type \<Rightarrow> string \<Rightarrow> jobj" where
  "monitorEmergencyFallback ty response =
     (if ty = Planner then
        [(''observation'',
            JStr (''Monitor emergency fallback - original response: ''
                  @ substring response 0 100)),
         (''done'', JBool False),
         (''challenges'', JStr ''JSON monitoring system crashed''),
         (''next_steps'', JStr ''Continue with emergency procedures''),
         (''final_answer'', JStr []),
         (''reasoning'', JStr ''Emergency fallback due to monitor failure''),
         (''web_task'', JBool True)]
      else
        [(''current_state'',
            JObj [(''evaluation_previous_goal'', JStr ''Monitor emergency fallback''),
                  (''memory'',
                     JStr (''Monitor crashed, original response: '' @ substring response 0 100)),
                  (''next_goal'', JStr ''Execute emergency action'')]),
         (''action'',
            JArr [defaultGoToUrl ''Emergency navigation to safe page''
                    ''https://www.google.com''])])"

definition createEmergencyResult ::
  "string \<Rightarrow> expected_type \<Rightarrow> js_error \<Rightarrow> ValidationResult" where
  "createEmergencyResult response ty error =
     (let detectedType = (case ty of Auto \<Rightarrow> Navigator | ExpPlanner \<Rightarrow> Planner
                          | ExpNavigator \<Rightarrow> Navigator)
      in \<lparr>isValid = True, originalResponse = response, parsedJson = None,
          validatedData = None, errors = [''Monitor crashed: '' @ message error],
          agentType = detectedType,
          correctedResponse = Some (monitorEmergencyFallback detectedType response)\<rparr>)"

text \<open>
  \<^verbatim>\<open>try { body } catch (error) { handler }\<close> over a state: what the body changed
  before it threw stays changed.
\<close>

definition tryCatch ::
  "'s \<times> (js_error + 'a) \<Rightarrow> ('s \<Rightarrow> js_error \<Rightarrow> 's \<times> (js_error + 'a)) \<Rightarrow> 's \<times> (js_error + 'a)" where
  "tryCatch body handler =
     (case body of (s, Inl e) \<Rightarrow> handler s e | (s, Inr v) \<Rightarrow> (s, Inr v))"

definition countResult :: "JSONResponseMonitor \<Rightarrow> ValidationResult \<Rightarrow> JSONResponseMonitor" where
  "countResult m validationResult =
     (if isValid validationResult then
        (if correctedResponse validationResult \<noteq> None
         then m\<lparr>correctionCount := correctionCount m + 1\<rparr>
         else m\<lparr>successCount := successCount m + 1\<rparr>)
      else m\<lparr>failureCount := failureCount m + 1\<rparr>)"

text \<open>
  \<open>monitorResponseWith\<close> is the method with the two calls it makes inside its
  \<^verbatim>\<open>try\<close> left open: the validator and the audits, either of which may throw.
  \<open>monitorResponse\<close> is the method as written, with \<open>validateResponse\<close> and
  \<open>performAdditionalChecks\<close>.
\<close>

definition monitorResponseWith ::
  "(string \<Rightarrow> expected_type \<Rightarrow> string option \<Rightarrow> js_error + ValidationResult)
   \<Rightarrow> (ValidationResult \<Rightarrow> js_error + string list)
   \<Rightarrow> JSONResponseMonitor \<Rightarrow> string \<Rightarrow> expected_type \<Rightarrow> string option
   \<Rightarrow> JSONResponseMonitor \<times> (js_error + ValidationResult)" where
  "monitorResponseWith validate audit m response ty context =
     (if \<not> monitoringActive m then (m, Inr (createBypassResult response))
      else
        (let m1 = m\<lparr>responseCount := responseCount m + 1\<rparr>
         in tryCatch
              (case validate response ty context of
                 Inl e \<Rightarrow> (m1, Inl e)
               | Inr validationResult \<Rightarrow>
                   (let m2 = countResult m1 validationResult
                    in case audit validationResult of
                         Inl e \<Rightarrow> (m2, Inl e)
                       | Inr logged \<Rightarrow> (m2, Inr validationResult)))
              (\<lambda>m3 error.
                 (m3\<lparr>failureCount := failureCount m3 + 1\<rparr>,
                  Inr (createEmergencyResult response ty error)))))"

definition monitorResponse ::
  "parser \<Rightarrow> JSONResponseMonitor \<Rightarrow> string \<Rightarrow> expected_type \<Rightarrow> string option
   \<Rightarrow> JSONResponseMonitor \<times> (js_error + ValidationResult)" where
  "monitorResponse parse =
     monitorResponseWith (\<lambda>response ty context. Inr (validateResponse parse response ty context))
       performAdditionalChecks"

definition setMonitoring :: "bool \<Rightarrow> JSONResponseMonitor \<Rightarrow> JSONResponseMonitor" where
  "setMonitoring enabled m = m\<lparr>monitoringActive := enabled\<rparr>"

definition resetStatistics :: "JSONResponseMonitor \<Rightarrow> JSONResponseMonitor" where
  "resetStatistics m =
     m\<lparr>responseCount := 0, successCount := 0, correctionCount := 0, failureCount := 0\<rparr>"

text \<open>\<^verbatim>\<open>getStatistics\<close>, the four counts (the three rates are quotients of them).\<close>

definition getStatistics :: "JSONResponseMonitor \<Rightarrow> nat \<times> nat \<times> nat \<times> nat" where
  "getStatistics m = (responseCount m, successCount m, correctionCount m, failureCount m)"

section \<open>The agents (agents/base.ts, agents/planner.ts, messages/utils.ts)\<close>

subsection \<open>removeThinkTags\<close>

definition thinkOpen :: string where
  "thinkOpen = ''<think>''"

definition thinkClose :: string where
  "thinkClose = ''</think>''"

text \<open>Step 1: every span from an opening tag to the first closing tag after it goes.\<close>

fun removeThinkSpans :: "string \<Rightarrow> string" where
  "removeThinkSpans [] = []"
| "removeThinkSpans (c # cs) =
     (if startsWith (c # cs) thinkOpen then
        (case indexOf (drop 7 (c # cs)) thinkClose of
           Some i \<Rightarrow> removeThinkSpans (drop (7 + i + 8) (c # cs))
         | None \<Rightarrow> c # removeThinkSpans cs)
      else c # removeThinkSpans cs)"

text \<open>Step 2: everything up to and including a closing tag goes, again and again.\<close>

fun removeStrayClose :: "string \<Rightarrow> string" where
  "removeStrayClose [] = []"
| "removeStrayClose (c # cs) =
     (case indexOf (c # cs) thinkClose of
        Some i \<Rightarrow> removeStrayClose (drop (i + 8) (c # cs))
      | None \<Rightarrow> c # cs)"

definition removeThinkTags :: "string \<Rightarrow> string" where
  "removeThinkTags text = trim (removeStrayClose (removeThinkSpans text))"

subsection \<open>plannerOutputSchema\<close>

text \<open>
  The union of a boolean and a string with a transform: a boolean passes, a string is
  replaced by the boolean it spells, in any case, and the transform throws on any other
  string; anything else is an issue of the union.
\<close>

fun booleanOrBooleanString ::
  "string \<Rightarrow> json option \<Rightarrow> js_error + ((string \<times> string) list \<times> json)" where
  "booleanOrBooleanString path (Some (JBool b)) = Inr ([], JBool b)"
| "booleanOrBooleanString path (Some (JStr val)) =
     (if toLowerCase val = ''true'' then Inr ([], JBool True)
      else if toLowerCase val = ''false'' then Inr ([], JBool False)
      else Inl (PlainError ''Invalid boolean string''))"
| "booleanOrBooleanString path v = Inr ([(path, ''Invalid input'')], JNull)"

definition fieldOf :: "jobj \<Rightarrow> string \<Rightarrow> json" where
  "fieldOf data k = (case map_of data k of None \<Rightarrow> JNull | Some v \<Rightarrow> v)"

text \<open>
  \<^verbatim>\<open>plannerOutputSchema.parse\<close>: the fields are read in the order of the schema, the
  issues collected, a throwing transform ends the parse at once; the value returned has
  the seven fields of the schema and nothing else.
\<close>

definition plannerOutputSchema :: "jobj \<Rightarrow> schema_error + jobj" where
  "plannerOutputSchema data =
     (let i1 = zodString ''observation'' (map_of data ''observation'');
          i2 = zodString ''challenges'' (map_of data ''challenges'')
      in case booleanOrBooleanString ''done'' (map_of data ''done'') of
           Inl e \<Rightarrow> Inl (OtherError e)
         | Inr (i3, doneV) \<Rightarrow>
        (let i4 = zodString ''next_steps'' (map_of data ''next_steps'');
             i5 = zodString ''final_answer'' (map_of data ''final_answer'');
             i6 = zodString ''reasoning'' (map_of data ''reasoning'')
         in case booleanOrBooleanString ''web_task'' (map_of data ''web_task'') of
              Inl e \<Rightarrow> Inl (OtherError e)
            | Inr (i7, webTaskV) \<Rightarrow>
           (let issues = i1 @ i2 @ i3 @ i4 @ i5 @ i6 @ i7
            in if issues = [] then
                 Inr [(''observation'', fieldOf data ''observation''),
                      (''challenges'', fieldOf data ''challenges''),
                      (''done'', doneV),
                      (''next_steps'', fieldOf data ''next_steps''),
                      (''final_answer'', fieldOf data ''final_answer''),
                      (''reasoning'', fieldOf data ''reasoning''),
                      (''web_task'', webTaskV)]
               else Inl (ZodError issues))))"

subsection \<open>BaseAgent\<close>

record BaseAgent =
  agentId :: string
  modelName :: string
  provider :: string
  withStructuredOutput :: bool

definition G4F :: string where
  "G4F = ''g4f''"

definition Llama :: string where
  "Llama = ''llama''"

definition isLlamaModel :: "string \<Rightarrow> bool" where
  "isLlamaModel name =
     (str_includes name ''Llama-4'' \<or> str_includes name ''Llama-3.3''
      \<or> str_includes name ''llama-3.3'')"

definition setWithStructuredOutput :: "string \<Rightarrow> string \<Rightarrow> bool" where
  "setWithStructuredOutput name prov =
     (if name = ''deepseek-reasoner'' \<or> name = ''deepseek-r1'' then False
      else if prov = G4F then False
      else if prov = Llama \<or> isLlamaModel name then False
      else True)"

text \<open>The constructor, as far as these four fields go.\<close>

definition newBaseAgent :: "string \<Rightarrow> string \<Rightarrow> string \<Rightarrow> BaseAgent" where
  "newBaseAgent ident name prov =
     \<lparr>agentId = ident, modelName = name, provider = prov,
      withStructuredOutput = setWithStructuredOutput name prov\<rparr>"

text \<open>
  Modelled from the spec: \<^verbatim>\<open>isAbortedError\<close> is imported from \<^verbatim>\<open>./errors\<close>, which is
  not among the sources. It recognises the error of a cancelled request.
\<close>

fun isAbortedError :: "js_error \<Rightarrow> bool" where
  "isAbortedError (AbortError m) = True"
| "isAbortedError e = False"

text \<open>
  What the reasoning service answers during one \<open>invoke\<close>: to the structured call (it
  throws, or returns with or without a parsed value) and to the plain call (it throws, or
  returns a content that is a string or not).
\<close>

datatype llm_content = TextContent string | OtherContent

record LLMCalls =
  structuredCall :: "js_error + jobj option"
  manualCall :: "js_error + llm_content"

definition validateModelOutput :: "(jobj \<Rightarrow> schema_error + jobj) \<Rightarrow> jobj \<Rightarrow> js_error + jobj" where
  "validateModelOutput modelOutputSchema data =
     (case modelOutputSchema data of
        Inl e \<Rightarrow> Inl (PlainError ''Could not validate model output'')
      | Inr parsed \<Rightarrow> Inr parsed)"

definition createEmergencyFallback :: "expected_type \<Rightarrow> string \<Rightarrow> jobj" where
  "createEmergencyFallback ty response =
     (let responseSnippet = trim (substring response 0 150);
          safeUrl = ''https://www.google.com/''
      in if ty = ExpPlanner then
           [(''observation'',
               JStr (''JSON parsing failed: '' @ responseSnippet
                     @ ''. Providing safe navigation plan.'')),
            (''done'', JBool False),
            (''challenges'', JStr ''Model output was not properly formatted JSON''),
            (''next_steps'',
               JStr ''Navigate to Google as a safe, universal starting point for any web tasks''),
            (''final_answer'', JStr []),
            (''reasoning'',
               JStr ''Google provides a safe, reliable platform for web navigation and search tasks''),
            (''web_task'', JBool True)]
         else
           [(''current_state'',
               JObj [(''evaluation_previous_goal'',
                        JStr ''JSON parsing failed, need safe navigation''),
                     (''memory'',
                        JStr (''Previous response was malformed: ''
                              @ substring responseSnippet 0 50 @ ''...'')),
                     (''next_goal'', JStr ''Navigate to Google as safe starting point'')]),
            (''action'',
               JArr [defaultGoToUrl
                       ''Navigate to Google as safe fallback after JSON parsing failure''
                       safeUrl])])"

definition finalJsonOf :: "ValidationResult \<Rightarrow> jobj option" where
  "finalJsonOf monitorResult =
     (case validatedData monitorResult of
        Some d \<Rightarrow> Some d
      | None \<Rightarrow>
          (case correctedResponse monitorResult of
             Some d \<Rightarrow> Some d
           | None \<Rightarrow> parsedJson monitorResult))"

text \<open>
  The manual path of \<open>invoke\<close>, from the plain call on. The state is the agent and the
  monitor. The inner \<^verbatim>\<open>try\<close> holds the monitor and the final validation; its
  \<^verbatim>\<open>catch\<close> validates the emergency fallback, and rethrows what that throws.
\<close>

definition emergencyPath ::
  "(jobj \<Rightarrow> schema_error + jobj) \<Rightarrow> expected_type \<Rightarrow> string \<Rightarrow> js_error + jobj" where
  "emergencyPath modelOutputSchema ty content =
     validateModelOutput modelOutputSchema (createEmergencyFallback ty content)"

definition manualExtraction ::
  "parser \<Rightarrow> (jobj \<Rightarrow> schema_error + jobj) \<Rightarrow> LLMCalls \<Rightarrow> BaseAgent \<times> JSONResponseMonitor
   \<Rightarrow> (BaseAgent \<times> JSONResponseMonitor) \<times> (js_error + jobj)" where
  "manualExtraction parse modelOutputSchema calls st =
     (case st of (agent, monitor) \<Rightarrow>
      (case manualCall calls of
         Inl e \<Rightarrow> (st, Inl e)
       | Inr OtherContent \<Rightarrow> (st, Inl (PlainError ''Could not parse response''))
       | Inr (TextContent content) \<Rightarrow>
           (let cleanedContent = removeThinkTags content;
                ty = (if agentId agent = ''navigator'' then ExpNavigator else ExpPlanner);
                context = ''Agent: '' @ agentId agent @ '', Model: '' @ modelName agent
                          @ '', Provider: '' @ provider agent
            in case monitorResponse parse monitor cleanedContent ty (Some context) of
                 (monitor1, Inl error) \<Rightarrow>
                   ((agent, monitor1), emergencyPath modelOutputSchema ty cleanedContent)
               | (monitor1, Inr monitorResult) \<Rightarrow>
                   (case finalJsonOf monitorResult of
                      None \<Rightarrow> ((agent, monitor1), Inl (PlainError ''Could not parse response''))
                    | Some finalJson \<Rightarrow>
                        (case validateModelOutput modelOutputSchema finalJson of
                           Inl error \<Rightarrow>
                             ((agent, monitor1),
                              emergencyPath modelOutputSchema ty cleanedContent)
                         | Inr parsed \<Rightarrow> ((agent, monitor1), Inr parsed))))))"

text \<open>The structured call: a response without a parsed value is thrown as an error.\<close>

definition structuredInvoke :: "LLMCalls \<Rightarrow> js_error + jobj" where
  "structuredInvoke calls =
     (case structuredCall calls of
        Inl e \<Rightarrow> Inl e
      | Inr None \<Rightarrow> Inl (PlainError ''Could not parse response with structured output'')
      | Inr (Some parsed) \<Rightarrow> Inr parsed)"

definition invoke ::
  "parser \<Rightarrow> (jobj \<Rightarrow> schema_error + jobj) \<Rightarrow> LLMCalls \<Rightarrow> BaseAgent \<times> JSONResponseMonitor
   \<Rightarrow> (BaseAgent \<times> JSONResponseMonitor) \<times> (js_error + jobj)" where
  "invoke parse modelOutputSchema calls st =
     (case st of (agent, monitor) \<Rightarrow>
      if withStructuredOutput agent then
        (case structuredInvoke calls of
           Inr parsed \<Rightarrow> (st, Inr parsed)
         | Inl error \<Rightarrow>
             if isAbortedError error then (st, Inl error)
             else if provider agent = G4F then
               manualExtraction parse modelOutputSchema calls
                 (agent\<lparr>withStructuredOutput := False\<rparr>, monitor)
             else
               (st, Inl (PlainError (''Failed to invoke '' @ modelName agent
                                     @ '' with structured output: '' @ error_to_string error))))
      else manualExtraction parse modelOutputSchema calls st)"

section \<open>The executor (executor.ts)\<close>

record PlannerOutput =
  observation :: string
  plan_done :: bool
  challenges :: string
  next_steps :: string
  final_answer :: string
  reasoning :: string
  web_task :: bool

record 'a AgentOutput =
  out_result :: "'a option"
  out_error :: "string option"

datatype ExecutionState =
  TASK_START | TASK_OK | TASK_FAIL | TASK_CANCEL | TASK_PAUSE

record AgentOptions =
  maxSteps :: nat
  maxFailures :: nat
  planningInterval :: nat

text \<open>
  The executor with the fields of its context that the loop reads and writes. \<open>events\<close>
  is what it emitted as the system actor, oldest first. \<open>plannerCalls\<close> and
  \<open>navigatorCalls\<close> count the calls of the two agents' \<^verbatim>\<open>execute\<close>; the code has no
  such counters, they are kept for the statements below.
\<close>

record Executor =
  taskId :: string
  tasks :: "string list"
  lastPlannerOutput :: "string option"
  repetitiveActionCount :: nat
  nSteps :: nat
  consecutiveFailures :: nat
  finalAnswer :: "string option"
  events :: "(ExecutionState \<times> string) list"
  plannerCalls :: nat
  navigatorCalls :: nat

definition MAX_REPETITIVE_ACTIONS :: nat where
  "MAX_REPETITIVE_ACTIONS = 3"

definition newExecutor :: "string \<Rightarrow> string \<Rightarrow> Executor" where
  "newExecutor task ident =
     \<lparr>taskId = ident, tasks = [task], lastPlannerOutput = None, repetitiveActionCount = 0,
      nSteps = 0, consecutiveFailures = 0, finalAnswer = None, events = [],
      plannerCalls = 0, navigatorCalls = 0\<rparr>"

text \<open>
  What the world outside the executor does during one turn of the loop: the stop and
  pause flags of the context as \<^verbatim>\<open>shouldStop\<close> reads them (\<open>stoppedAtCheck\<close>,
  \<open>pausedAtCheck\<close>, then the pair read after each sleep of the poll), whether adding the
  browser state to the memory throws, what the planner's \<^verbatim>\<open>execute\<close> does, the URL of
  the cached browser state before and after the navigator's call, whether the context is
  paused or stopped at the two checks of \<^verbatim>\<open>navigate\<close>, and what the navigator's
  \<^verbatim>\<open>execute\<close> does (its result is the \<open>done\<close> flag).
\<close>

record StepEnv =
  stoppedAtCheck :: bool
  pausedAtCheck :: bool
  pollTicks :: "(bool \<times> bool) list"
  stateToMemory :: "js_error option"
  plannerExecute :: "js_error + PlannerOutput AgentOutput"
  beforeUrl :: "js_error + string"
  haltedBeforeCall :: bool
  navigatorExecute :: "js_error + bool AgentOutput"
  haltedAfterCall :: bool
  afterUrl :: "js_error + string"

text \<open>
  Messages come from a catalogue that is not part of the sources: a message is written
  as its key, followed by its arguments.
\<close>

definition t :: "string \<Rightarrow> string list \<Rightarrow> string" where
  "t key args = key @ concat (map (\<lambda>a. '': '' @ a) args)"

definition emitEvent :: "ExecutionState \<Rightarrow> string \<Rightarrow> Executor \<Rightarrow> Executor" where
  "emitEvent state msg ex = ex\<lparr>events := events ex @ [(state, msg)]\<rparr>"

subsection \<open>runPlanner and checkTaskCompletion\<close>

definition forceCompletionPlan :: PlannerOutput where
  "forceCompletionPlan =
     \<lparr>observation = ''Detected repetitive behavior - completing task to prevent infinite loop'',
      plan_done = True,
      challenges = ''System detected potential infinite loop'',
      next_steps = ''Task completed due to loop prevention'',
      final_answer = ''Task stopped to prevent infinite execution loop'',
      reasoning = ''Loop detection mechanism activated'',
      web_task = True\<rparr>"

definition plannerSignature :: "PlannerOutput \<Rightarrow> string" where
  "plannerSignature r =
     (if next_steps r \<noteq> [] then next_steps r
      else if observation r \<noteq> [] then observation r
      else [])"

text \<open>
  The plans go to the message manager, which is not part of the sources and is left
  out. Whatever throws inside the \<^verbatim>\<open>try\<close> makes \<open>runPlanner\<close> return \<^verbatim>\<open>null\<close>.
\<close>

definition runPlanner ::
  "StepEnv \<Rightarrow> Executor \<Rightarrow> Executor \<times> PlannerOutput AgentOutput option" where
  "runPlanner env ex =
     (case (if 1 < length (tasks ex) \<or> 0 < nSteps ex then stateToMemory env else None) of
        Some thrown \<Rightarrow> (ex, None)
      | None \<Rightarrow>
          (let ex0 = ex\<lparr>plannerCalls := plannerCalls ex + 1\<rparr>
           in case plannerExecute env of
                Inl thrown \<Rightarrow> (ex0, None)
              | Inr planOutput \<Rightarrow>
                  (case out_result planOutput of
                     None \<Rightarrow> (ex0, Some planOutput)
                   | Some r \<Rightarrow>
                       (let currentPlannerOutput = plannerSignature r
                        in if lastPlannerOutput ex0 \<noteq> None
                              \<and> lastPlannerOutput ex0 \<noteq> Some []
                              \<and> lastPlannerOutput ex0 = Some currentPlannerOutput
                           then
                             (let ex1 = ex0\<lparr>repetitiveActionCount :=
                                               repetitiveActionCount ex0 + 1\<rparr>
                              in if MAX_REPETITIVE_ACTIONS \<le> repetitiveActionCount ex1 then
                                   (ex1, Some \<lparr>out_result = Some forceCompletionPlan,
                                               out_error = None\<rparr>)
                                 else (ex1, Some planOutput))
                           else
                             (ex0\<lparr>repetitiveActionCount := 0,
                                  lastPlannerOutput := Some currentPlannerOutput\<rparr>,
                              Some planOutput)))))"

definition planIsDone :: "PlannerOutput AgentOutput option \<Rightarrow> bool" where
  "planIsDone planOutput =
     (case planOutput of
        None \<Rightarrow> False
      | Some out \<Rightarrow> (case out_result out of None \<Rightarrow> False | Some r \<Rightarrow> plan_done r))"

definition checkTaskCompletion ::
  "PlannerOutput AgentOutput option \<Rightarrow> Executor \<Rightarrow> Executor \<times> bool" where
  "checkTaskCompletion planOutput ex =
     (case planOutput of
        None \<Rightarrow> (ex, False)
      | Some out \<Rightarrow>
          (case out_result out of
             None \<Rightarrow> (ex, False)
           | Some r \<Rightarrow>
               if plan_done r then
                 (if final_answer r \<noteq> [] then (ex\<lparr>finalAnswer := Some (final_answer r)\<rparr>, True)
                  else (ex, True))
               else (ex, False)))"

subsection \<open>navigate\<close>

fun isFatalError :: "js_error \<Rightarrow> bool" where
  "isFatalError (ChatModelAuthError m) = True"
| "isFatalError (ChatModelForbiddenError m) = True"
| "isFatalError (URLNotAllowedError m) = True"
| "isFatalError (RequestCancelledError m) = True"
| "isFatalError (ExtensionConflictError m) = True"
| "isFatalError e = False"

text \<open>The \<^verbatim>\<open>catch\<close> of \<open>navigate\<close>.\<close>

definition navigateCatch ::
  "AgentOptions \<Rightarrow> Executor \<Rightarrow> js_error \<Rightarrow> Executor \<times> (js_error + bool)" where
  "navigateCatch opts ex error =
     (if isFatalError error then (ex, Inl error)
      else
        (let ex1 = ex\<lparr>consecutiveFailures := consecutiveFailures ex + 1\<rparr>
         in if maxFailures opts \<le> consecutiveFailures ex1
            then (ex1, Inl (PlainError (t ''exec_errors_maxFailuresReached'' [])))
            else (ex1, Inr False)))"

definition navigateTry :: "StepEnv \<Rightarrow> Executor \<Rightarrow> Executor \<times> (js_error + bool)" where
  "navigateTry env ex =
     (case beforeUrl env of
        Inl thrown \<Rightarrow> (ex, Inl thrown)
      | Inr urlBefore \<Rightarrow>
          if haltedBeforeCall env then (ex, Inr False)
          else
            (let ex0 = ex\<lparr>navigatorCalls := navigatorCalls ex + 1\<rparr>
             in case navigatorExecute env of
                  Inl thrown \<Rightarrow> (ex0, Inl thrown)
                | Inr navOutput \<Rightarrow>
                    if haltedAfterCall env then (ex0, Inr False)
                    else
                      (case afterUrl env of
                         Inl thrown \<Rightarrow> (ex0, Inl thrown)
                       | Inr urlAfter \<Rightarrow>
                           (let navDone = (out_result navOutput = Some True);
                                ex1 = (if urlBefore = urlAfter \<and> urlBefore \<noteq> [] \<and> \<not> navDone then ex0
                                       else if urlBefore \<noteq> urlAfter
                                       then ex0\<lparr>repetitiveActionCount := 0\<rparr>
                                       else ex0);
                                ex2 = ex1\<lparr>nSteps := nSteps ex1 + 1\<rparr>
                            in case out_error navOutput of
                                 None \<Rightarrow> (ex2\<lparr>consecutiveFailures := 0\<rparr>, Inr navDone)
                               | Some msg \<Rightarrow>
                                   if msg \<noteq> [] then (ex2, Inl (PlainError msg))
                                   else (ex2\<lparr>consecutiveFailures := 0\<rparr>, Inr navDone)))))"

definition navigate ::
  "AgentOptions \<Rightarrow> StepEnv \<Rightarrow> Executor \<Rightarrow> Executor \<times> (js_error + bool)" where
  "navigate opts env ex = tryCatch (navigateTry env ex) (navigateCatch opts)"

subsection \<open>shouldStop and execute\<close>

text \<open>
  The poll of \<open>shouldStop\<close>: while the context is paused, sleep, then read the flags
  again. \<open>None\<close> is a poll that is still waiting when the recorded reads end.
\<close>

fun waitWhilePaused :: "(bool \<times> bool) list \<Rightarrow> bool \<Rightarrow> bool option" where
  "waitWhilePaused [] isPaused = (if isPaused then None else Some False)"
| "waitWhilePaused ((stoppedNow, pausedNow) # rest) isPaused =
     (if isPaused then (if stoppedNow then Some True else waitWhilePaused rest pausedNow)
      else Some False)"

definition shouldStop :: "AgentOptions \<Rightarrow> StepEnv \<Rightarrow> Executor \<Rightarrow> bool option" where
  "shouldStop opts env ex =
     (if stoppedAtCheck env then Some True
      else
        (case waitWhilePaused (pollTicks env) (pausedAtCheck env) of
           None \<Rightarrow> None
         | Some True \<Rightarrow> Some True
         | Some False \<Rightarrow> Some (maxFailures opts \<le> consecutiveFailures ex)))"

text \<open>
  How the loop of \<open>execute\<close> ends: an exception leaves it, or it is left by a
  \<^verbatim>\<open>break\<close> or by its bound, with the value of \<open>step\<close> and the latest plan.
\<close>

datatype loop_end =
    Threw js_error
  | Left nat "PlannerOutput AgentOutput option"

definition isPlanningStep :: "AgentOptions \<Rightarrow> Executor \<Rightarrow> bool \<Rightarrow> bool" where
  "isPlanningStep opts ex navigatorDone =
     ((planningInterval opts \<noteq> 0 \<and> nSteps ex mod planningInterval opts = 0) \<or> navigatorDone)"

text \<open>
  The loop, from \<open>step\<close> on, with \<open>fuel\<close> the number of turns left before \<open>step\<close>
  reaches the bound. \<open>None\<close> is a loop that waits in a pause for ever.
\<close>

fun execLoop ::
  "AgentOptions \<Rightarrow> (nat \<Rightarrow> StepEnv) \<Rightarrow> nat \<Rightarrow> nat \<Rightarrow> bool \<Rightarrow> PlannerOutput AgentOutput option
   \<Rightarrow> Executor \<Rightarrow> (Executor \<times> loop_end) option" where
  "execLoop opts env 0 step navigatorDone latestPlanOutput ex =
     Some (ex, Left step latestPlanOutput)"
| "execLoop opts env (Suc fuel) step navigatorDone latestPlanOutput ex =
     (case shouldStop opts (env step) ex of
        None \<Rightarrow> None
      | Some True \<Rightarrow> Some (ex, Left step latestPlanOutput)
      | Some False \<Rightarrow>
          (if isPlanningStep opts ex navigatorDone then
             (case runPlanner (env step) ex of
                (ex1, planOutput) \<Rightarrow>
                  (case checkTaskCompletion planOutput ex1 of
                     (ex2, True) \<Rightarrow> Some (ex2, Left step planOutput)
                   | (ex2, False) \<Rightarrow>
                       (case navigate opts (env step) ex2 of
                          (ex3, Inl thrown) \<Rightarrow> Some (ex3, Threw thrown)
                        | (ex3, Inr navDone) \<Rightarrow>
                            execLoop opts env fuel (Suc step) navDone planOutput ex3)))
           else
             (case navigate opts (env step) ex of
                (ex3, Inl thrown) \<Rightarrow> Some (ex3, Threw thrown)
              | (ex3, Inr navDone) \<Rightarrow>
                  execLoop opts env fuel (Suc step) navDone latestPlanOutput ex3)))"

fun isRequestCancelled :: "js_error \<Rightarrow> bool" where
  "isRequestCancelled (RequestCancelledError m) = True"
| "isRequestCancelled e = False"

text \<open>
  \<open>execute\<close>. \<open>stoppedAtEnd\<close> is the stop flag of the context as read after the loop.
  The \<^verbatim>\<open>finally\<close> block stores the history in a store that is not part of the sources
  and is left out.
\<close>

definition execute ::
  "AgentOptions \<Rightarrow> (nat \<Rightarrow> StepEnv) \<Rightarrow> bool \<Rightarrow> Executor \<Rightarrow> Executor option" where
  "execute opts env stoppedAtEnd ex =
     (let ex0 = emitEvent TASK_START (taskId ex) (ex\<lparr>nSteps := 0\<rparr>)
      in case execLoop opts env (maxSteps opts) 0 False None ex0 of
           None \<Rightarrow> None
         | Some (ex1, Threw error) \<Rightarrow>
             Some (if isRequestCancelled error
                   then emitEvent TASK_CANCEL (t ''exec_task_cancel'' []) ex1
                   else emitEvent TASK_FAIL (t ''exec_task_fail'' [message error]) ex1)
         | Some (ex1, Left step latestPlanOutput) \<Rightarrow>
             Some (if planIsDone latestPlanOutput then
                     emitEvent TASK_OK
                       (case finalAnswer ex1 of
                          None \<Rightarrow> taskId ex1
                        | Some a \<Rightarrow> if a \<noteq> [] then a else taskId ex1)
                       ex1
                   else if maxSteps opts \<le> step then
                     emitEvent TASK_FAIL (t ''exec_errors_maxStepsReached'' []) ex1
                   else if stoppedAtEnd then
                     emitEvent TASK_CANCEL (t ''exec_task_cancel'' []) ex1
                   else emitEvent TASK_PAUSE (t ''exec_task_pause'' []) ex1))"

section \<open>Example inputs\<close>

text \<open>
  For the examples, \<^verbatim>\<open>JSON.parse\<close> is given by the table of the texts it is asked to
  parse; it throws on any other text.
\<close>

definition parseTable :: "(string \<times> jobj) list \<Rightarrow> parser" where
  "parseTable tbl s =
     (case map_of tbl s of
        Some v \<Rightarrow> Inr v
      | None \<Rightarrow> Inl (SyntaxError ''Unexpected token''))"

definition validPlannerRecord :: jobj where
  "validPlannerRecord =
     [(''observation'', JStr ''ok''), (''done'', JBool True), (''challenges'', JStr []),
      (''next_steps'', JStr []), (''final_answer'', JStr ''x''), (''reasoning'', JStr ''y''),
      (''web_task'', JBool True), (''extra'', JNum 1)]"

definition validNavigatorRecord :: jobj where
  "validNavigatorRecord =
     [(''action'', JArr [JObj [(''done'', JObj [(''text'', JStr ''ok''), (''success'', JBool True)])]]),
      (''current_state'',
         JObj [(''evaluation_previous_goal'', JStr ''Success''), (''memory'', JStr ''m''),
               (''next_goal'', JStr ''g'')])]"

text \<open>The text \<^verbatim>\<open>{"done": 5}\<close> and the record it parses to.\<close>

definition doneFiveText :: string where
  "doneFiveText = ''{'' @ [CHR 0x22] @ ''done'' @ [CHR 0x22] @ '': 5}''"

definition doneFiveRecord :: jobj where
  "doneFiveRecord = [(''done'', JNum 5)]"

section \<open>Notions used in the statements\<close>

text \<open>
  The role classifier in the words of the specification: a keyword hits a text when it
  occurs in the lower-cased text, and the score of a keyword set is the number of its
  keywords that hit. \<open>specNavigatorKeywords\<close> and \<open>specPlannerKeywords\<close> are the two
  sets the specification lists, \<open>specClassify\<close> the rule it gives for them.
\<close>

definition occursIn :: "string \<Rightarrow> string \<Rightarrow> bool" where
  "occursIn k s = (\<exists>pre post. s = pre @ k @ post)"

definition hits :: "string list \<Rightarrow> string \<Rightarrow> nat" where
  "hits keywords text = card {k \<in> set keywords. occursIn k (toLowerCase text)}"

definition specNavigatorKeywords :: "string list" where
  "specNavigatorKeywords =
     [''current_state'', ''action'', ''evaluation_previous_goal'', ''memory'', ''next_goal'',
      ''click_element'', ''go_to_url'', ''input_text'', ''navigate'', ''browser'']"

definition specPlannerKeywords :: "string list" where
  "specPlannerKeywords =
     [''observation'', ''challenges'', ''next_steps'', ''final_answer'', ''reasoning'', ''web_task'']"

definition specClassify :: "string \<Rightarrow> agent_type" where
  "specClassify text =
     (if keywordScore specPlannerKeywords (toLowerCase text)
           < keywordScore specNavigatorKeywords (toLowerCase text)
      then Navigator else Planner)"

text \<open>A context that names neither role, in any case of letters, or no context at all.\<close>

definition namesNoRole :: "string option \<Rightarrow> bool" where
  "namesNoRole context =
     (case context of
        None \<Rightarrow> True
      | Some c \<Rightarrow>
          \<not> occursIn ''navigator'' (toLowerCase c) \<and> \<not> occursIn ''planner'' (toLowerCase c))"

text \<open>
  The counters of the monitor are balanced when every response counted is counted once
  more as a success, a correction or a failure. A monitor is used through its three
  public methods; \<open>afterCalls\<close> is the monitor after a sequence of such calls on a new
  one.
\<close>

definition countersBalanced :: "JSONResponseMonitor \<Rightarrow> bool" where
  "countersBalanced m =
     (responseCount m = successCount m + correctionCount m + failureCount m)"

datatype monitor_call =
    CallMonitorResponse string expected_type "string option"
  | CallSetMonitoring bool
  | CallResetStatistics

fun applyCall :: "parser \<Rightarrow> JSONResponseMonitor \<Rightarrow> monitor_call \<Rightarrow> JSONResponseMonitor" where
  "applyCall parse m (CallMonitorResponse response ty context) =
     fst (monitorResponse parse m response ty context)"
| "applyCall parse m (CallSetMonitoring enabled) = setMonitoring enabled m"
| "applyCall parse m CallResetStatistics = resetStatistics m"

definition afterCalls :: "parser \<Rightarrow> monitor_call list \<Rightarrow> JSONResponseMonitor" where
  "afterCalls parse calls = foldl (applyCall parse) newMonitor calls"

text \<open>
  What a boolean field of the planner output may be given as, and the boolean it then
  stands for; the string fields of the planner output; the record that
  \<open>plannerOutputSchema\<close> returns for given booleans.
\<close>

fun coercedBoolean :: "json option \<Rightarrow> bool option" where
  "coercedBoolean (Some (JBool b)) = Some b"
| "coercedBoolean (Some (JStr s)) =
     (if toLowerCase s = ''true'' then Some True
      else if toLowerCase s = ''false'' then Some False
      else None)"
| "coercedBoolean v = None"

definition plannerOutputOf :: "jobj \<Rightarrow> bool \<Rightarrow> bool \<Rightarrow> jobj" where
  "plannerOutputOf data b1 b2 =
     [(''observation'', fieldOf data ''observation''),
      (''challenges'', fieldOf data ''challenges''),
      (''done'', JBool b1),
      (''next_steps'', fieldOf data ''next_steps''),
      (''final_answer'', fieldOf data ''final_answer''),
      (''reasoning'', fieldOf data ''reasoning''),
      (''web_task'', JBool b2)]"

definition stringFields :: "string list" where
  "stringFields = [''observation'', ''challenges'', ''next_steps'', ''final_answer'', ''reasoning'']"

definition isStringValue :: "json option \<Rightarrow> bool" where
  "isStringValue v = (case v of Some (JStr s) \<Rightarrow> True | other \<Rightarrow> False)"


text \<open>
  Examples: a planner record with given \<open>done\<close> and \<open>web_task\<close>; a planner agent of
  the OpenAI provider and one of the G4F provider, as the constructor makes them; a
  service whose structured call fails with an authentication error, and one whose
  request is aborted, the plain call of both answering \<open>hello\<close>.
\<close>

definition plannerRecordWith :: "json \<Rightarrow> json \<Rightarrow> jobj" where
  "plannerRecordWith doneV webTaskV =
     [(''observation'', JStr ''ok''), (''done'', doneV), (''challenges'', JStr []),
      (''next_steps'', JStr ''go''), (''final_answer'', JStr []), (''reasoning'', JStr ''y''),
      (''web_task'', webTaskV)]"


definition g4fAgent :: BaseAgent where
  "g4fAgent = newBaseAgent ''planner'' ''qwen-2.5'' G4F"

definition authFailureCalls :: LLMCalls where
  "authFailureCalls =
     \<lparr>structuredCall = Inl (LibraryError ''AuthenticationError'' ''401 Unauthorized''),
      manualCall = Inr (TextContent ''hello'')\<rparr>"


text \<open>
  Runs of the executor for the statements: a step in which the run goes on unhindered and
  the planner answers with a plan that is not done and has the signature \<open>s\<close>; a step
  in which the navigator's call succeeds and the browser stays on the same URL; the
  executor that a new one has become after \<open>k\<close> such steps.
\<close>

definition repeatsPlan :: "string \<Rightarrow> StepEnv \<Rightarrow> bool" where
  "repeatsPlan s env =
     (stoppedAtCheck env = False \<and> pausedAtCheck env = False \<and> stateToMemory env = None
      \<and> (case plannerExecute env of
            Inl thrown \<Rightarrow> False
          | Inr out \<Rightarrow>
              (case out_result out of
                 None \<Rightarrow> False
               | Some r \<Rightarrow> plannerSignature r = s \<and> plan_done r = False)))"

definition staysOnPage :: "StepEnv \<Rightarrow> bool" where
  "staysOnPage env =
     (haltedBeforeCall env = False \<and> haltedAfterCall env = False
      \<and> (case beforeUrl env of
            Inl thrown \<Rightarrow> False
          | Inr u \<Rightarrow> afterUrl env = Inr u)
      \<and> (case navigatorExecute env of
            Inl thrown \<Rightarrow> False
          | Inr out \<Rightarrow> out_error out = None))"

definition afterSteps :: "string \<Rightarrow> string \<Rightarrow> string \<Rightarrow> nat \<Rightarrow> Executor" where
  "afterSteps task ident s k =
     \<lparr>taskId = ident, tasks = [task],
      lastPlannerOutput = (if k = 0 then None else Some s),
      repetitiveActionCount = k - 1, nSteps = k, consecutiveFailures = 0,
      finalAnswer = None, events = [(TASK_START, ident)],
      plannerCalls = k, navigatorCalls = k\<rparr>"

text \<open>
  Examples: a planner that always answers with the same plan, in a world where the
  navigator succeeds without leaving the page, where it always throws a plain error, and
  where its request is cancelled.
\<close>

definition samePlan :: "PlannerOutput AgentOutput" where
  "samePlan =
     \<lparr>out_result = Some \<lparr>observation = ''The page is open'', plan_done = False,
                          challenges = [], next_steps = ''Click the search button'',
                          final_answer = [], reasoning = ''r'', web_task = True\<rparr>,
      out_error = None\<rparr>"

definition repeatingEnv :: "nat \<Rightarrow> StepEnv" where
  "repeatingEnv step =
     \<lparr>stoppedAtCheck = False, pausedAtCheck = False, pollTicks = [],
      stateToMemory = None, plannerExecute = Inr samePlan,
      beforeUrl = Inr ''https://example.com/'', haltedBeforeCall = False,
      navigatorExecute = Inr \<lparr>out_result = Some False, out_error = None\<rparr>,
      haltedAfterCall = False, afterUrl = Inr ''https://example.com/''\<rparr>"


definition optionsWith :: "nat \<Rightarrow> AgentOptions" where
  "optionsWith steps = \<lparr>maxSteps = steps, maxFailures = 3, planningInterval = 1\<rparr>"




section \<open>Properties\<close>

subsection \<open>Object spread\<close>

lemma map_of_copy_props:
  "map_of (foldl (copy_prop src) tgt ks) k =
     (if k \<in> set ks then (case map_of src k of Some v \<Rightarrow> Some v | None \<Rightarrow> map_of tgt k)
      else map_of tgt k)"
proof (induction ks arbitrary: tgt)
  case Nil
  then show ?case by simp
next
  case (Cons a ks)
  show ?case
    by (simp add: Cons.IH) (auto simp: copy_prop_def update_conv' split: option.splits)
qed

lemma map_of_spread: "map_of (spread tgt src) = map_of tgt ++ map_of src"
proof
  fix k
  have "k \<notin> set (own_keys src) \<Longrightarrow> map_of src k = None"
    by (simp add: own_keys_def map_of_eq_None_iff)
  then show "map_of (spread tgt src) k = (map_of tgt ++ map_of src) k"
    by (auto simp: spread_def map_of_copy_props map_add_def split: option.splits)
qed

lemma spread_covered:
  assumes "\<And>k. k \<in> fst ` set tgt \<Longrightarrow> map_of src k \<noteq> None"
  shows "map_of (spread tgt src) = map_of src"
proof
  fix k
  show "map_of (spread tgt src) k = map_of src k"
  proof (cases "map_of src k")
    case None
    then have "k \<notin> fst ` set tgt" using assms by blast
    then have "map_of tgt k = None" by (simp add: map_of_eq_None_iff)
    with None show ?thesis by (simp add: map_of_spread map_add_def)
  next
    case (Some v)
    then show ?thesis by (simp add: map_of_spread map_add_def)
  qed
qed

lemma distinct_copy_props:
  "distinct (map fst tgt) \<Longrightarrow> distinct (map fst (foldl (copy_prop src) tgt ks))"
proof (induction ks arbitrary: tgt)
  case Nil
  then show ?case by simp
next
  case (Cons a ks)
  have "distinct (map fst (copy_prop src tgt a))"
    using Cons.prems by (simp add: copy_prop_def distinct_update split: option.splits)
  then show ?case by (simp add: Cons.IH)
qed

lemma distinct_spread: "distinct (map fst tgt) \<Longrightarrow> distinct (map fst (spread tgt src))"
  by (simp add: spread_def distinct_copy_props)

lemma same_fields:
  assumes "map_of xs = map_of ys"
  shows "fst ` set xs = fst ` set ys"
  by (metis assms dom_map_of_conv_image_fst)

subsection \<open>What the schemas accept\<close>

lemma zodString_ok: "zodString p v = [] \<Longrightarrow> \<exists>s. v = Some (JStr s)"
  by (cases "(p, v)" rule: zodString.cases) (auto simp: invalidType_def)

lemma zodBoolean_ok: "zodBoolean p v = [] \<Longrightarrow> \<exists>b. v = Some (JBool b)"
  by (cases "(p, v)" rule: zodBoolean.cases) (auto simp: invalidType_def)

lemma zodStringNullable_ok:
  "zodStringNullable p v = [] \<Longrightarrow> v = Some JNull \<or> (\<exists>s. v = Some (JStr s))"
  by (cases "(p, v)" rule: zodStringNullable.cases) (auto simp: invalidType_def dest: zodString_ok)

lemma zodBooleanOrString_ok:
  "zodBooleanOrString p v = [] \<Longrightarrow> (\<exists>b. v = Some (JBool b)) \<or> (\<exists>s. v = Some (JStr s))"
  by (cases "(p, v)" rule: zodBooleanOrString.cases) auto

lemma agentBrainSchema_ok: "agentBrainSchema p v = [] \<Longrightarrow> \<exists>ps. v = Some (JObj ps)"
  by (cases "(p, v)" rule: agentBrainSchema.cases) (auto simp: invalidType_def)

lemma zodArrayOfRecords_ok: "zodArrayOfRecords p v = [] \<Longrightarrow> \<exists>xs. v = Some (JArr xs)"
  by (cases "(p, v)" rule: zodArrayOfRecords.cases) (auto simp: invalidType_def)

lemma validate_success_planner:
  "schemaSuccess (validateAgainstSchema data Planner) = (plannerSchema data = [])"
  by (auto simp: validateAgainstSchema_def schemaTry_def zodParse_def split: js_error.splits)

lemma validate_success_navigator:
  "schemaSuccess (validateAgainstSchema data Navigator) = (navigatorSchema data = [])"
  by (auto simp: validateAgainstSchema_def schemaTry_def zodParse_def split: js_error.splits)

lemma validate_success_unknown:
  "schemaSuccess (validateAgainstSchema data Unknown) = False"
  by (auto simp: validateAgainstSchema_def schemaTry_def)

lemma planner_fields_present:
  assumes "plannerSchema data = []"
  shows "\<forall>k \<in> set requiredFields. map_of data k \<noteq> None"
  using assms
  by (auto simp: plannerSchema_def requiredFields_def
      dest!: zodString_ok zodBoolean_ok zodStringNullable_ok zodBooleanOrString_ok)

lemma navigator_fields_present:
  assumes "navigatorSchema data = []"
  shows "map_of data ''current_state'' \<noteq> None \<and> map_of data ''action'' \<noteq> None"
  using assms
  by (auto simp: navigatorSchema_def dest!: agentBrainSchema_ok zodArrayOfRecords_ok)

subsection \<open>The repairer\<close>

lemma distinct_fixInvalidJSON: "distinct (map fst (fixInvalidJSON data ty))"
  by (simp add: fixInvalidJSON_def distinct_spread)

lemma fixInvalidJSON_valid_unchanged:
  assumes "schemaSuccess (validateAgainstSchema data ty)"
  shows "map_of (fixInvalidJSON data ty) = map_of data"
proof (cases ty)
  case Planner
  with assms have "plannerSchema data = []" by (simp add: validate_success_planner)
  from planner_fields_present [OF this] show ?thesis
    unfolding fixInvalidJSON_def Planner
    by (simp add: requiredFields_def) (rule spread_covered, auto)
next
  case Navigator
  with assms have "navigatorSchema data = []" by (simp add: validate_success_navigator)
  from navigator_fields_present [OF this] show ?thesis
    unfolding fixInvalidJSON_def Navigator
    by simp (rule spread_covered, auto)
next
  case Unknown
  with assms show ?thesis by (simp add: validate_success_unknown)
qed

text \<open>
  C6. Repairing a record that already satisfies the schema of its role changes nothing,
  for the planner and for the navigator: every property reads as before, the record has
  the same keys, and, the keys of a record being distinct, the same properties and as
  many of them.
\<close>

theorem fixInvalidJSON_idempotent:
  assumes "schemaSuccess (validateAgainstSchema data ty)"
  shows "map_of (fixInvalidJSON data ty) = map_of data
       \<and> fst ` set (fixInvalidJSON data ty) = fst ` set data
       \<and> (distinct (map fst data) \<longrightarrow>
            set (fixInvalidJSON data ty) = set data
            \<and> length (fixInvalidJSON data ty) = length data)"
proof -
  have eq: "map_of (fixInvalidJSON data ty) = map_of data"
    by (rule fixInvalidJSON_valid_unchanged [OF assms])
  have keys: "fst ` set (fixInvalidJSON data ty) = fst ` set data"
    by (rule same_fields [OF eq])
  have "set (fixInvalidJSON data ty) = set data \<and> length (fixInvalidJSON data ty) = length data"
    if d: "distinct (map fst data)"
  proof -
    have d': "distinct (map fst (fixInvalidJSON data ty))" by (rule distinct_fixInvalidJSON)
    have s: "set (fixInvalidJSON data ty) = set data"
      using map_of_inject_set [OF d' d] eq by simp
    have "distinct (fixInvalidJSON data ty)" "distinct data"
      using d d' by (auto simp: distinct_map)
    then have "length (fixInvalidJSON data ty) = length data"
      using s by (metis distinct_card)
    with s show ?thesis by simp
  qed
  with eq keys show ?thesis by blast
qed

theorem fixInvalidJSON_idempotent_witness:
  "(schemaSuccess (validateAgainstSchema validPlannerRecord Planner)
    \<and> distinct (map fst validPlannerRecord)
    \<and> map_of (fixInvalidJSON validPlannerRecord Planner) = map_of validPlannerRecord
    \<and> set (fixInvalidJSON validPlannerRecord Planner) = set validPlannerRecord)
   \<and> (schemaSuccess (validateAgainstSchema validNavigatorRecord Navigator)
    \<and> distinct (map fst validNavigatorRecord)
    \<and> map_of (fixInvalidJSON validNavigatorRecord Navigator) = map_of validNavigatorRecord
    \<and> set (fixInvalidJSON validNavigatorRecord Navigator) = set validNavigatorRecord)"
proof -
  have p: "schemaSuccess (validateAgainstSchema validPlannerRecord Planner)" by code_simp
  have dp: "distinct (map fst validPlannerRecord)" by code_simp
  have n: "schemaSuccess (validateAgainstSchema validNavigatorRecord Navigator)" by code_simp
  have dn: "distinct (map fst validNavigatorRecord)" by code_simp
  show ?thesis
    using p dp n dn fixInvalidJSON_idempotent [OF p] fixInvalidJSON_idempotent [OF n] by blast
qed

text \<open>
  C1. The repairer does not always return a record that satisfies the schema of the
  role. On the planner record \<^verbatim>\<open>{"done": 5}\<close> it returns a record whose \<open>done\<close> is
  still the number 5, which the planner schema rejects, and \<open>validateResponse\<close> hands
  that record out as valid; on a navigator record whose \<open>current_state\<close> is \<^verbatim>\<open>null\<close>
  the default it computed is replaced by the \<^verbatim>\<open>null\<close> again.
\<close>

theorem fixInvalidJSON_keeps_invalid_fields:
  "map_of (fixInvalidJSON doneFiveRecord Planner) ''done'' = Some (JNum 5)
   \<and> \<not> schemaSuccess (validateAgainstSchema (fixInvalidJSON doneFiveRecord Planner) Planner)
   \<and> isValid (validateResponse (parseTable [(doneFiveText, doneFiveRecord)]) doneFiveText
               ExpPlanner None)
   \<and> validatedData (validateResponse (parseTable [(doneFiveText, doneFiveRecord)]) doneFiveText
                     ExpPlanner None)
       = Some (fixInvalidJSON doneFiveRecord Planner)
   \<and> map_of (fixInvalidJSON [(''current_state'', JNull)] Navigator) ''current_state''
       = Some JNull
   \<and> \<not> schemaSuccess
         (validateAgainstSchema (fixInvalidJSON [(''current_state'', JNull)] Navigator) Navigator)"
  by code_simp

subsection \<open>The classifier\<close>

lemma startsWith_iff: "startsWith s k \<longleftrightarrow> (\<exists>post. s = k @ post)"
proof
  assume "startsWith s k"
  then have "s = k @ drop (length k) s"
    by (metis startsWith_def append_take_drop_id)
  then show "\<exists>post. s = k @ post" ..
next
  assume "\<exists>post. s = k @ post"
  then show "startsWith s k" by (auto simp: startsWith_def)
qed

lemma str_includes_iff: "str_includes s k \<longleftrightarrow> occursIn k s"
proof (induction s)
  case Nil
  then show ?case by (auto simp: occursIn_def)
next
  case (Cons c cs)
  show ?case
  proof
    assume "str_includes (c # cs) k"
    then consider "startsWith (c # cs) k" | "str_includes cs k" by auto
    then show "occursIn k (c # cs)"
    proof cases
      case 1
      then obtain post where "c # cs = k @ post" by (auto simp: startsWith_iff)
      then have "c # cs = [] @ k @ post" by simp
      then show ?thesis unfolding occursIn_def by blast
    next
      case 2
      then obtain pre post where "cs = pre @ k @ post" using Cons.IH by (auto simp: occursIn_def)
      then have "c # cs = (c # pre) @ k @ post" by simp
      then show ?thesis unfolding occursIn_def by blast
    qed
  next
    assume "occursIn k (c # cs)"
    then obtain pre post where e: "c # cs = pre @ k @ post" by (auto simp: occursIn_def)
    show "str_includes (c # cs) k"
    proof (cases pre)
      case Nil
      with e have "startsWith (c # cs) k" by (auto simp: startsWith_iff)
      then show ?thesis by simp
    next
      case (Cons a pre')
      with e have "cs = pre' @ k @ post" by simp
      then have "occursIn k cs" unfolding occursIn_def by blast
      then show ?thesis using Cons.IH by simp
    qed
  qed
qed

lemma keywordScore_card:
  assumes "distinct keywords"
  shows "keywordScore keywords (toLowerCase text) = hits keywords text"
proof -
  have "distinct (filter (str_includes (toLowerCase text)) keywords)"
    using assms by simp
  then have "length (filter (str_includes (toLowerCase text)) keywords)
             = card (set (filter (str_includes (toLowerCase text)) keywords))"
    by (metis distinct_card)
  also have "set (filter (str_includes (toLowerCase text)) keywords)
             = {k \<in> set keywords. occursIn k (toLowerCase text)}"
    by (auto simp: str_includes_iff)
  finally show ?thesis by (simp add: keywordScore_def hits_def)
qed

lemma lower_char_not_upper:
  "\<not> (65 \<le> (of_char (lower_char c) :: nat) \<and> (of_char (lower_char c) :: nat) \<le> 90)"
  by (auto simp: lower_char_def Let_def)

lemma occurs_char: "occursIn k s \<Longrightarrow> set k \<subseteq> set s"
  by (auto simp: occursIn_def)

lemma no_upper_in_lowered:
  assumes "x \<in> set k" "65 \<le> (of_char x :: nat)" "(of_char x :: nat) \<le> 90"
  shows "\<not> str_includes (toLowerCase s) k"
proof
  assume "str_includes (toLowerCase s) k"
  then have "x \<in> set (toLowerCase s)" using assms(1) occurs_char by (auto simp: str_includes_iff)
  then obtain c where "x = lower_char c" by (auto simp: toLowerCase_def)
  with assms(2,3) lower_char_not_upper [of c] show False by simp
qed

lemma no_L9: "\<not> str_includes (toLowerCase s) ''L9.''"
  by (rule no_upper_in_lowered [of "CHR ''L''"]) simp_all

lemma no_D9: "\<not> str_includes (toLowerCase s) ''D9.''"
  by (rule no_upper_in_lowered [of "CHR ''D''"]) simp_all

lemma distinct_navigatorKeywords: "distinct navigatorKeywords"
  by (simp add: navigatorKeywords_def)

lemma distinct_plannerKeywords: "distinct plannerKeywords"
  by (simp add: plannerKeywords_def)

lemma ctx_quiet:
  assumes "namesNoRole ctx"
  shows "\<not> str_includes (case ctx of None \<Rightarrow> [] | Some c \<Rightarrow> toLowerCase c) ''navigator''"
    and "\<not> str_includes (case ctx of None \<Rightarrow> [] | Some c \<Rightarrow> toLowerCase c) ''planner''"
proof -
  show "\<not> str_includes (case ctx of None \<Rightarrow> [] | Some c \<Rightarrow> toLowerCase c) ''navigator''"
  proof (cases ctx)
    case None
    then show ?thesis by simp
  next
    case (Some c)
    with assms have "\<not> occursIn ''navigator'' (toLowerCase c)" by (simp add: namesNoRole_def)
    with Some show ?thesis by (simp add: str_includes_iff)
  qed
  show "\<not> str_includes (case ctx of None \<Rightarrow> [] | Some c \<Rightarrow> toLowerCase c) ''planner''"
  proof (cases ctx)
    case None
    then show ?thesis by simp
  next
    case (Some c)
    with assms have "\<not> occursIn ''planner'' (toLowerCase c)" by (simp add: namesNoRole_def)
    with Some show ?thesis by (simp add: str_includes_iff)
  qed
qed

subsection \<open>validateResponse\<close>

lemma extractJSON_data:
  "exData (extractJSON parse r) = None \<longleftrightarrow> \<not> exSuccess (extractJSON parse r)"
  by (simp add: extractJSON_def Let_def split: strategy.splits)

lemma resolveAgentType_known: "resolveAgentType raw ty ctx \<noteq> Unknown"
  by (cases ty) (simp_all add: resolveAgentType_def detectAgentType_def Let_def)

text \<open>The three ways \<open>validateResponse\<close> returns, as records.\<close>

lemma validateResponse_no_extraction:
  assumes "\<not> exSuccess (extractJSON parse raw)"
  shows "validateResponse parse raw ty ctx
           = \<lparr>isValid = True, originalResponse = raw, parsedJson = None,
              validatedData = Some (createFallbackResponse (resolveAgentType raw ty ctx) raw),
              errors = exErrors (extractJSON parse raw),
              agentType = resolveAgentType raw ty ctx,
              correctedResponse
                = Some (createFallbackResponse (resolveAgentType raw ty ctx) raw)\<rparr>"
  using assms by (simp add: validateResponse_def Let_def)

lemma validateResponse_schema_failure:
  assumes "exData (extractJSON parse raw) = Some parsed"
    and "\<not> schemaSuccess (validateAgainstSchema parsed (resolveAgentType raw ty ctx))"
  shows "validateResponse parse raw ty ctx
           = \<lparr>isValid = True, originalResponse = raw, parsedJson = Some parsed,
              validatedData = Some (fixInvalidJSON parsed (resolveAgentType raw ty ctx)),
              errors = schemaErrors
                         (validateAgainstSchema parsed (resolveAgentType raw ty ctx)),
              agentType = resolveAgentType raw ty ctx,
              correctedResponse
                = Some (fixInvalidJSON parsed (resolveAgentType raw ty ctx))\<rparr>"
proof -
  have "exSuccess (extractJSON parse raw)"
    using assms(1) extractJSON_data [of parse raw] by auto
  with assms show ?thesis by (simp add: validateResponse_def Let_def)
qed

lemma validateResponse_success:
  assumes "exData (extractJSON parse raw) = Some parsed"
    and "schemaSuccess (validateAgainstSchema parsed (resolveAgentType raw ty ctx))"
  shows "validateResponse parse raw ty ctx
           = \<lparr>isValid = True, originalResponse = raw, parsedJson = Some parsed,
              validatedData = Some parsed, errors = [],
              agentType = resolveAgentType raw ty ctx, correctedResponse = None\<rparr>"
proof -
  have "exSuccess (extractJSON parse raw)"
    using assms(1) extractJSON_data [of parse raw] by auto
  with assms show ?thesis by (simp add: validateResponse_def Let_def)
qed

lemma validateResponse_isValid: "isValid (validateResponse parse raw ty ctx)"
proof (cases "exData (extractJSON parse raw)")
  case None
  then have "\<not> exSuccess (extractJSON parse raw)" by (simp add: extractJSON_data)
  then show ?thesis by (simp add: validateResponse_no_extraction)
next
  case (Some parsed)
  then show ?thesis
    by (cases "schemaSuccess (validateAgainstSchema parsed (resolveAgentType raw ty ctx))")
       (simp_all add: validateResponse_schema_failure validateResponse_success)
qed

subsection \<open>The audits never throw\<close>

lemma andThen_total:
  "\<exists>l. a = Inr l \<Longrightarrow> \<exists>l. b = Inr l \<Longrightarrow> \<exists>l. andThen a b = Inr l"
  by (auto simp: andThen_def)

lemma readField_object:
  "truthyV v \<Longrightarrow> \<exists>r. readField v k = Inr r"
  by (cases "(v, k)" rule: readField.cases) (auto simp: truthyV_def)

lemma actionTypeChecks_total:
  "truthyV d \<Longrightarrow> \<exists>l. actionTypeChecks ty d = Inr l"
proof -
  assume t: "truthyV d"
  obtain u where u: "readField d ''url'' = Inr u" using readField_object [OF t] by blast
  obtain x where x: "readField d ''text'' = Inr x" using readField_object [OF t] by blast
  obtain s where s: "readField d ''success'' = Inr s" using readField_object [OF t] by blast
  obtain i where i: "readField d ''index'' = Inr i" using readField_object [OF t] by blast
  show ?thesis by (simp add: actionTypeChecks_def u x s i)
qed

lemma validateAction_total: "\<exists>l. validateAction a i = Inr l"
proof (cases "truthy a \<and> typeofV (Some a) = ''object''")
  case False
  then show ?thesis by (auto simp: validateAction_def)
next
  case True
  then have ta: "truthyV (Some a)" by (simp add: truthyV_def)
  show ?thesis
  proof (cases "objectKeys a")
    case Nil
    with True show ?thesis by (simp add: validateAction_def)
  next
    case (Cons k ks)
    show ?thesis
    proof (cases ks)
      case (Cons k' ks')
      with True \<open>objectKeys a = k # ks\<close> show ?thesis by (simp add: validateAction_def)
    next
      case Nil
      obtain d where d: "readField (Some a) k = Inr d" using readField_object [OF ta] by blast
      show ?thesis
      proof (cases "truthyV d \<and> typeofV d = ''object''")
        case False
        with True Nil \<open>objectKeys a = k # ks\<close> d show ?thesis
          by (auto simp: validateAction_def)
      next
        case td: True
        then obtain n where n: "readField d ''intent'' = Inr n"
          using readField_object by blast
        obtain l where l: "actionTypeChecks k d = Inr l"
          using actionTypeChecks_total td by blast
        from True Nil \<open>objectKeys a = k # ks\<close> d td n l show ?thesis
          by (simp add: validateAction_def andThen_def)
      qed
    qed
  qed
qed

lemma forEachAction_total: "\<exists>l. forEachAction xs i = Inr l"
proof (induction xs arbitrary: i)
  case Nil
  then show ?case by simp
next
  case (Cons a xs)
  show ?case
    using validateAction_total [of a i] Cons.IH [of "Suc i"] by (simp add: andThen_total)
qed

lemma currentStateChecks_total: "\<exists>l. currentStateChecks data = Inr l"
proof (cases "truthyV (map_of data ''current_state'')")
  case False
  then show ?thesis by (simp add: currentStateChecks_def)
next
  case True
  obtain g where g: "readField (map_of data ''current_state'') ''evaluation_previous_goal'' = Inr g"
    using readField_object [OF True] by blast
  obtain m where m: "readField (map_of data ''current_state'') ''memory'' = Inr m"
    using readField_object [OF True] by blast
  obtain n where n: "readField (map_of data ''current_state'') ''next_goal'' = Inr n"
    using readField_object [OF True] by blast
  show ?thesis by (simp add: currentStateChecks_def Let_def True g m n)
qed

lemma validateNavigatorResponse_total: "\<exists>l. validateNavigatorResponse data = Inr l"
proof -
  have "\<exists>l. (case map_of data ''action'' of
          Some (JArr actions) \<Rightarrow>
            andThen (Inr [''Navigator has '' @ showNat (length actions) @ '' actions''])
              (forEachAction actions 0)
        | other \<Rightarrow> Inr [''Navigator missing or invalid action array'']) = Inr l"
    using forEachAction_total by (auto simp: andThen_total split: option.splits json.splits)
  then show ?thesis
    unfolding validateNavigatorResponse_def
    using currentStateChecks_total andThen_total by blast
qed

lemma missingFields_total: "\<exists>l. missingFields fs data = Inr l"
  by (induction fs) auto

lemma validatePlannerResponse_total: "\<exists>l. validatePlannerResponse data = Inr l"
  using missingFields_total [of requiredFields data]
  by (auto simp: validatePlannerResponse_def)

lemma performAdditionalChecks_total: "\<exists>l. performAdditionalChecks r = Inr l"
proof (cases "validatedData r")
  case None
  then show ?thesis by (simp add: performAdditionalChecks_def)
next
  case (Some data)
  have a: "\<exists>l. (if agentType r = Navigator then validateNavigatorResponse data else Inr []) = Inr l"
    using validateNavigatorResponse_total by simp
  have b: "\<exists>l. (if agentType r = Planner then validatePlannerResponse data else Inr []) = Inr l"
    using validatePlannerResponse_total by simp
  have c: "\<exists>l. validateCommonIssues data = Inr l"
    by (simp add: validateCommonIssues_def)
  show ?thesis
    unfolding performAdditionalChecks_def Some option.case
    by (intro andThen_total a b c)
qed

subsection \<open>The monitor\<close>

lemma monitorResponseWith_disabled:
  "\<not> monitoringActive m \<Longrightarrow>
   monitorResponseWith validate audit m response ty ctx = (m, Inr (createBypassResult response))"
  by (simp add: monitorResponseWith_def)

lemma monitorResponseWith_validate_throws:
  "monitoringActive m \<Longrightarrow> validate response ty ctx = Inl e \<Longrightarrow>
   monitorResponseWith validate audit m response ty ctx
     = (m\<lparr>responseCount := responseCount m + 1, failureCount := failureCount m + 1\<rparr>,
        Inr (createEmergencyResult response ty e))"
  by (simp add: monitorResponseWith_def tryCatch_def Let_def)

lemma monitorResponseWith_audit_throws:
  "monitoringActive m \<Longrightarrow> validate response ty ctx = Inr v \<Longrightarrow> audit v = Inl e \<Longrightarrow>
   monitorResponseWith validate audit m response ty ctx
     = ((countResult (m\<lparr>responseCount := responseCount m + 1\<rparr>) v)
          \<lparr>failureCount := failureCount (countResult (m\<lparr>responseCount := responseCount m + 1\<rparr>) v) + 1\<rparr>,
        Inr (createEmergencyResult response ty e))"
  by (simp add: monitorResponseWith_def tryCatch_def Let_def)

lemma monitorResponseWith_ok:
  "monitoringActive m \<Longrightarrow> validate response ty ctx = Inr v \<Longrightarrow> audit v = Inr l \<Longrightarrow>
   monitorResponseWith validate audit m response ty ctx
     = (countResult (m\<lparr>responseCount := responseCount m + 1\<rparr>) v, Inr v)"
  by (simp add: monitorResponseWith_def tryCatch_def Let_def)

lemma monitorResponseWith_returns:
  "\<exists>m' r. monitorResponseWith validate audit m response ty ctx = (m', Inr r)"
proof (cases "monitoringActive m")
  case False
  then show ?thesis by (simp add: monitorResponseWith_disabled)
next
  case True
  show ?thesis
  proof (cases "validate response ty ctx")
    case (Inl e)
    with True show ?thesis by (simp add: monitorResponseWith_validate_throws)
  next
    case (Inr v)
    show ?thesis
    proof (cases "audit v")
      case (Inl e)
      with True Inr show ?thesis by (simp add: monitorResponseWith_audit_throws)
    next
      case (Inr l)
      with True \<open>validate response ty ctx = Inr v\<close> show ?thesis
        by (simp add: monitorResponseWith_ok)
    qed
  qed
qed

lemma monitorResponse_enabled:
  assumes "monitoringActive m"
  shows "monitorResponse parse m response ty ctx
         = (countResult (m\<lparr>responseCount := responseCount m + 1\<rparr>)
              (validateResponse parse response ty ctx),
            Inr (validateResponse parse response ty ctx))"
proof -
  obtain l where "performAdditionalChecks (validateResponse parse response ty ctx) = Inr l"
    using performAdditionalChecks_total by blast
  with assms show ?thesis
    by (simp add: monitorResponse_def monitorResponseWith_ok)
qed

lemma monitorResponse_disabled:
  "\<not> monitoringActive m \<Longrightarrow>
   monitorResponse parse m response ty ctx = (m, Inr (createBypassResult response))"
  by (simp add: monitorResponse_def monitorResponseWith_disabled)

lemma countResult_valid:
  "isValid v \<Longrightarrow>
   countResult m v = (if correctedResponse v \<noteq> None
                      then m\<lparr>correctionCount := correctionCount m + 1\<rparr>
                      else m\<lparr>successCount := successCount m + 1\<rparr>)"
  by (simp add: countResult_def)

lemma monitorResponse_balanced:
  "countersBalanced m \<Longrightarrow> countersBalanced (fst (monitorResponse parse m response ty ctx))"
  by (cases "monitoringActive m")
     (auto simp: monitorResponse_enabled monitorResponse_disabled countResult_valid
        validateResponse_isValid countersBalanced_def)

lemma applyCall_balanced: "countersBalanced m \<Longrightarrow> countersBalanced (applyCall parse m c)"
  by (cases c) (auto simp: monitorResponse_balanced, auto simp: countersBalanced_def setMonitoring_def resetStatistics_def)

lemma foldl_balanced:
  "countersBalanced m \<Longrightarrow> countersBalanced (foldl (applyCall parse) m calls)"
  by (induction calls arbitrary: m) (simp_all add: applyCall_balanced)

lemma afterCalls_balanced: "countersBalanced (afterCalls parse calls)"
  unfolding afterCalls_def
  by (rule foldl_balanced) (simp add: countersBalanced_def newMonitor_def)

subsection \<open>The claims about the resolution pipeline\<close>

text \<open>
  C8 (as amended). For a text with no role hint, and no context or a context that names
  no role, the classifier counts the keywords of two disjoint sets that occur in the
  lower-cased text, answers \<open>Navigator\<close> exactly when the navigator set scores strictly
  higher, and \<open>Planner\<close> on a tie, also when both scores are zero. The planner set is
  the one the specification lists; the navigator set is the listed one and \<open>done\<close>.
\<close>

theorem detectAgentType_scores:
  assumes "namesNoRole ctx"
  shows "detectAgentType text ctx
           = (if hits plannerKeywords text < hits navigatorKeywords text
              then Navigator else Planner)
       \<and> set navigatorKeywords = set specNavigatorKeywords \<union> {''done''}
       \<and> set plannerKeywords = set specPlannerKeywords
       \<and> set navigatorKeywords \<inter> set plannerKeywords = {}"
proof -
  have up: "\<not> str_includes (case ctx of None \<Rightarrow> [] | Some c \<Rightarrow> toLowerCase c) ''L9.''"
           "\<not> str_includes (case ctx of None \<Rightarrow> [] | Some c \<Rightarrow> toLowerCase c) ''D9.''"
    using no_L9 no_D9 by (auto split: option.splits)
  have "detectAgentType text ctx
          = (if keywordScore plannerKeywords (toLowerCase text)
                < keywordScore navigatorKeywords (toLowerCase text) then Navigator else Planner)"
    using ctx_quiet [OF assms] up by (simp add: detectAgentType_def Let_def)
  then have a: "detectAgentType text ctx
           = (if hits plannerKeywords text < hits navigatorKeywords text
              then Navigator else Planner)"
    by (simp add: keywordScore_card distinct_navigatorKeywords distinct_plannerKeywords)
  have b: "set navigatorKeywords = set specNavigatorKeywords \<union> {''done''}"
    by code_simp
  have c: "set navigatorKeywords \<inter> set plannerKeywords = {}"
    by code_simp
  have d: "set plannerKeywords = set specPlannerKeywords"
    by (simp add: plannerKeywords_def specPlannerKeywords_def)
  from a b c d show ?thesis by blast
qed

theorem detectAgentType_scores_witness:
  "namesNoRole None
   \<and> detectAgentType ''Is it DONE?'' None
       = (if hits plannerKeywords ''Is it DONE?'' < hits navigatorKeywords ''Is it DONE?''
          then Navigator else Planner)
   \<and> detectAgentType ''Is it DONE?'' None = Navigator"
proof -
  have h: "namesNoRole None" by (simp add: namesNoRole_def)
  have v: "detectAgentType ''Is it DONE?'' None = Navigator" by code_simp
  show ?thesis using h v detectAgentType_scores [OF h, of "''Is it DONE?''"] by simp
qed

text \<open>
  On the text \<open>done\<close> both sets of the specification score zero, so its rule answers
  \<open>Planner\<close>; the code answers \<open>Navigator\<close>.
\<close>

theorem detectAgentType_done_counterexample:
  "keywordScore specNavigatorKeywords (toLowerCase ''done'') = 0
   \<and> keywordScore specPlannerKeywords (toLowerCase ''done'') = 0
   \<and> specClassify ''done'' = Planner
   \<and> detectAgentType ''done'' None = Navigator"
  by code_simp

text \<open>
  C9. Every result of \<open>validateResponse\<close> has \<open>isValid\<close> true and a
  \<open>validatedData\<close>: the fallback record when nothing could be extracted, the repaired
  record (also as \<open>correctedResponse\<close>) when the extracted record fails the schema, the
  extracted record itself otherwise. The role of the result is never \<open>Unknown\<close>.
\<close>

theorem validateResponse_always_valid:
  "isValid (validateResponse parse raw ty ctx)
   \<and> agentType (validateResponse parse raw ty ctx) = resolveAgentType raw ty ctx
   \<and> resolveAgentType raw ty ctx \<noteq> Unknown
   \<and> validatedData (validateResponse parse raw ty ctx)
       = Some (case exData (extractJSON parse raw) of
                 None \<Rightarrow> createFallbackResponse (resolveAgentType raw ty ctx) raw
               | Some parsed \<Rightarrow>
                   if schemaSuccess (validateAgainstSchema parsed (resolveAgentType raw ty ctx))
                   then parsed
                   else fixInvalidJSON parsed (resolveAgentType raw ty ctx))
   \<and> correctedResponse (validateResponse parse raw ty ctx)
       = (case exData (extractJSON parse raw) of
            None \<Rightarrow> Some (createFallbackResponse (resolveAgentType raw ty ctx) raw)
          | Some parsed \<Rightarrow>
              if schemaSuccess (validateAgainstSchema parsed (resolveAgentType raw ty ctx))
              then None
              else Some (fixInvalidJSON parsed (resolveAgentType raw ty ctx)))"
proof (cases "exData (extractJSON parse raw)")
  case None
  then have "\<not> exSuccess (extractJSON parse raw)" by (simp add: extractJSON_data)
  with None show ?thesis
    by (simp add: validateResponse_no_extraction resolveAgentType_known)
next
  case (Some parsed)
  show ?thesis
  proof (cases "schemaSuccess (validateAgainstSchema parsed (resolveAgentType raw ty ctx))")
    case True
    with Some show ?thesis
      by (simp add: validateResponse_success resolveAgentType_known)
  next
    case False
    with Some show ?thesis
      by (simp add: validateResponse_schema_failure resolveAgentType_known)
  qed
qed

theorem validateResponse_always_valid_witness:
  "isValid (validateResponse (parseTable []) ''plain prose'' Auto None)
   \<and> validatedData (validateResponse (parseTable []) ''plain prose'' Auto None)
       = Some (createFallbackResponse Planner ''plain prose'')"
proof -
  have x: "exData (extractJSON (parseTable []) ''plain prose'') = None" by code_simp
  have r: "resolveAgentType ''plain prose'' Auto None = Planner" by code_simp
  show ?thesis
    using validateResponse_always_valid [of "parseTable []" "''plain prose''" Auto None]
    by (simp add: x r)
qed

text \<open>
  C2. The resolution pipeline returns a result and never an exception, for every text,
  role hint and context: the monitor returns whatever the validator and the audits inside
  its \<^verbatim>\<open>try\<close> do, and when one of them throws it returns the emergency result, which is
  valid and carries a corrected record; \<open>validateResponse\<close> answers a failed extraction
  with the fallback record and a failed schema check with the repaired record.
\<close>

theorem pipeline_never_raises:
  "(\<exists>m' r. monitorResponseWith validate audit m response ty ctx = (m', Inr r))
   \<and> (\<exists>m' r. monitorResponse parse m response ty ctx = (m', Inr r))
   \<and> (monitoringActive m \<and> validate response ty ctx = Inl e \<longrightarrow>
        monitorResponseWith validate audit m response ty ctx
          = (m\<lparr>responseCount := responseCount m + 1, failureCount := failureCount m + 1\<rparr>,
             Inr (createEmergencyResult response ty e)))
   \<and> (monitoringActive m \<and> validate response ty ctx = Inr v \<and> audit v = Inl e \<longrightarrow>
        snd (monitorResponseWith validate audit m response ty ctx)
          = Inr (createEmergencyResult response ty e))
   \<and> isValid (createEmergencyResult response ty e)
   \<and> correctedResponse (createEmergencyResult response ty e) \<noteq> None
   \<and> (\<not> exSuccess (extractJSON parse response) \<longrightarrow>
        isValid (validateResponse parse response ty ctx)
        \<and> validatedData (validateResponse parse response ty ctx)
            = Some (createFallbackResponse (resolveAgentType response ty ctx) response))
   \<and> (exData (extractJSON parse response) = Some parsed
        \<and> \<not> schemaSuccess (validateAgainstSchema parsed (resolveAgentType response ty ctx)) \<longrightarrow>
        isValid (validateResponse parse response ty ctx)
        \<and> validatedData (validateResponse parse response ty ctx)
            = Some (fixInvalidJSON parsed (resolveAgentType response ty ctx)))"
proof -
  have a: "\<exists>m' r. monitorResponseWith validate audit m response ty ctx = (m', Inr r)"
    by (rule monitorResponseWith_returns)
  have b: "\<exists>m' r. monitorResponse parse m response ty ctx = (m', Inr r)"
    unfolding monitorResponse_def by (rule monitorResponseWith_returns)
  have c: "monitoringActive m \<and> validate response ty ctx = Inl e \<longrightarrow>
        monitorResponseWith validate audit m response ty ctx
          = (m\<lparr>responseCount := responseCount m + 1, failureCount := failureCount m + 1\<rparr>,
             Inr (createEmergencyResult response ty e))"
    by (simp add: monitorResponseWith_validate_throws)
  have d: "monitoringActive m \<and> validate response ty ctx = Inr v \<and> audit v = Inl e \<longrightarrow>
        snd (monitorResponseWith validate audit m response ty ctx)
          = Inr (createEmergencyResult response ty e)"
    by (simp add: monitorResponseWith_audit_throws)
  have f: "isValid (createEmergencyResult response ty e)
           \<and> correctedResponse (createEmergencyResult response ty e) \<noteq> None"
    by (simp add: createEmergencyResult_def Let_def)
  have g: "\<not> exSuccess (extractJSON parse response) \<longrightarrow>
        isValid (validateResponse parse response ty ctx)
        \<and> validatedData (validateResponse parse response ty ctx)
            = Some (createFallbackResponse (resolveAgentType response ty ctx) response)"
  proof
    assume "\<not> exSuccess (extractJSON parse response)"
    then show "isValid (validateResponse parse response ty ctx)
        \<and> validatedData (validateResponse parse response ty ctx)
            = Some (createFallbackResponse (resolveAgentType response ty ctx) response)"
      by (simp add: validateResponse_no_extraction)
  qed
  have h: "exData (extractJSON parse response) = Some parsed
        \<and> \<not> schemaSuccess (validateAgainstSchema parsed (resolveAgentType response ty ctx)) \<longrightarrow>
        isValid (validateResponse parse response ty ctx)
        \<and> validatedData (validateResponse parse response ty ctx)
            = Some (fixInvalidJSON parsed (resolveAgentType response ty ctx))"
    by (simp add: validateResponse_schema_failure)
  from a b c d f g h show ?thesis by blast
qed

theorem pipeline_never_raises_witness:
  "monitoringActive newMonitor
   \<and> monitorResponseWith (\<lambda>r t c. Inl (TypeError ''boom'')) performAdditionalChecks newMonitor
        ''hello'' ExpPlanner None
       = (newMonitor\<lparr>responseCount := 1, failureCount := 1\<rparr>,
          Inr (createEmergencyResult ''hello'' ExpPlanner (TypeError ''boom'')))
   \<and> \<not> exSuccess (extractJSON (parseTable []) ''hello'')
   \<and> validatedData (validateResponse (parseTable []) ''hello'' ExpPlanner None)
       = Some (createFallbackResponse Planner ''hello'')"
proof -
  have a: "monitoringActive newMonitor" by (simp add: newMonitor_def)
  have x: "\<not> exSuccess (extractJSON (parseTable []) ''hello'')" by code_simp
  have r: "resolveAgentType ''hello'' ExpPlanner None = Planner" by (simp add: resolveAgentType_def)
  show ?thesis
    using a x
      pipeline_never_raises [where validate = "\<lambda>r t c. Inl (TypeError ''boom'')"
        and audit = performAdditionalChecks and m = newMonitor and response = "''hello''"
        and ty = ExpPlanner and ctx = None and parse = "parseTable []"
        and e = "TypeError ''boom''"]
    by (simp add: r newMonitor_def)
qed

text \<open>
  C10. With monitoring enabled, a call of \<open>monitorResponse\<close> adds one to
  \<open>responseCount\<close> and one to exactly one other counter: \<open>correctionCount\<close> when the
  result has a corrected response, \<open>successCount\<close> otherwise; the validator and the
  audits never throw, and a validator that did would add one to \<open>failureCount\<close>
  instead. With monitoring disabled nothing
  changes and the bypass result is returned. Balanced counters stay balanced, they are
  balanced after any sequence of calls on a new monitor, and \<open>resetStatistics\<close> sets
  all four to zero.
\<close>

theorem monitor_counters:
  "(monitoringActive m \<longrightarrow>
      monitorResponse parse m response ty ctx
        = (if correctedResponse (validateResponse parse response ty ctx) \<noteq> None
           then m\<lparr>responseCount := responseCount m + 1,
                  correctionCount := correctionCount m + 1\<rparr>
           else m\<lparr>responseCount := responseCount m + 1,
                  successCount := successCount m + 1\<rparr>,
           Inr (validateResponse parse response ty ctx)))
   \<and> (\<not> monitoringActive m \<longrightarrow>
      monitorResponse parse m response ty ctx = (m, Inr (createBypassResult response)))
   \<and> (countersBalanced m \<longrightarrow>
      countersBalanced (fst (monitorResponse parse m response ty ctx)))
   \<and> countersBalanced (afterCalls parse calls)
   \<and> getStatistics (resetStatistics m) = (0, 0, 0, 0)
   \<and> (monitoringActive m \<and> validate response ty ctx = Inl e \<longrightarrow>
        fst (monitorResponseWith validate audit m response ty ctx)
          = m\<lparr>responseCount := responseCount m + 1, failureCount := failureCount m + 1\<rparr>)"
proof -
  have a: "monitoringActive m \<Longrightarrow>
      monitorResponse parse m response ty ctx
        = (if correctedResponse (validateResponse parse response ty ctx) \<noteq> None
           then m\<lparr>responseCount := responseCount m + 1,
                  correctionCount := correctionCount m + 1\<rparr>
           else m\<lparr>responseCount := responseCount m + 1,
                  successCount := successCount m + 1\<rparr>,
           Inr (validateResponse parse response ty ctx))"
    by (simp add: monitorResponse_enabled countResult_valid validateResponse_isValid)
  have e: "getStatistics (resetStatistics m) = (0, 0, 0, 0)"
    by (simp add: getStatistics_def resetStatistics_def)
  have f: "monitoringActive m \<and> validate response ty ctx = Inl e \<longrightarrow>
        fst (monitorResponseWith validate audit m response ty ctx)
          = m\<lparr>responseCount := responseCount m + 1, failureCount := failureCount m + 1\<rparr>"
    by (simp add: monitorResponseWith_validate_throws)
  from a e f monitorResponse_disabled [of m parse response ty ctx]
    monitorResponse_balanced [of m parse response ty ctx] afterCalls_balanced [of parse calls]
  show ?thesis by blast
qed

theorem monitor_counters_witness:
  "monitoringActive newMonitor
   \<and> countersBalanced newMonitor
   \<and> getStatistics
        (fst (monitorResponse (parseTable [(doneFiveText, doneFiveRecord)]) newMonitor
                doneFiveText ExpPlanner None)) = (1, 0, 1, 0)
   \<and> \<not> monitoringActive (setMonitoring False newMonitor)
   \<and> monitorResponse (parseTable []) (setMonitoring False newMonitor) ''x'' Auto None
       = (setMonitoring False newMonitor, Inr (createBypassResult ''x''))"
proof -
  have a: "monitoringActive newMonitor" by (simp add: newMonitor_def)
  have b: "countersBalanced newMonitor" by (simp add: newMonitor_def countersBalanced_def)
  have c: "correctedResponse
             (validateResponse (parseTable [(doneFiveText, doneFiveRecord)]) doneFiveText
                ExpPlanner None) \<noteq> None"
    by code_simp
  have d: "\<not> monitoringActive (setMonitoring False newMonitor)"
    by (simp add: newMonitor_def setMonitoring_def)
  show ?thesis
    using a b c d
      monitor_counters [of newMonitor "parseTable [(doneFiveText, doneFiveRecord)]"
        doneFiveText ExpPlanner None "[]"]
      monitor_counters [of "setMonitoring False newMonitor" "parseTable []" "''x''" Auto None "[]"]
    by (simp add: getStatistics_def newMonitor_def)
qed

subsection \<open>The agents\<close>

lemma zodString_iff: "zodString p v = [] \<longleftrightarrow> (\<exists>s. v = Some (JStr s))"
  by (cases "(p, v)" rule: zodString.cases) (auto simp: invalidType_def)

lemma booleanOrBooleanString_accepts:
  "booleanOrBooleanString p v = Inr ([], x) \<longleftrightarrow> (\<exists>b. coercedBoolean v = Some b \<and> x = JBool b)"
  by (cases "(p, v)" rule: booleanOrBooleanString.cases) auto

lemma booleanOrBooleanString_issues:
  "booleanOrBooleanString p v = Inr (issues, x) \<Longrightarrow> issues \<noteq> [] \<Longrightarrow> coercedBoolean v = None"
  by (cases "(p, v)" rule: booleanOrBooleanString.cases) (auto split: if_splits)

lemma booleanOrBooleanString_throws:
  "booleanOrBooleanString p v = Inl e \<Longrightarrow> coercedBoolean v = None"
  by (cases "(p, v)" rule: booleanOrBooleanString.cases) (auto split: if_splits)

lemma zodString_isStringValue: "zodString p v = [] \<longleftrightarrow> isStringValue v"
  by (cases "(p, v)" rule: zodString.cases) (auto simp: invalidType_def isStringValue_def)

lemma plannerOutputSchema_accepts:
  "plannerOutputSchema data = Inr out \<longleftrightarrow>
     (list_all (\<lambda>k. isStringValue (map_of data k)) stringFields
      \<and> (\<exists>b1 b2. coercedBoolean (map_of data ''done'') = Some b1
            \<and> coercedBoolean (map_of data ''web_task'') = Some b2
            \<and> out = plannerOutputOf data b1 b2))"
proof (cases "booleanOrBooleanString ''done'' (map_of data ''done'')")
  case (Inl e)
  then show ?thesis
    by (simp add: plannerOutputSchema_def Let_def booleanOrBooleanString_throws)
next
  case d: (Inr p1)
  obtain i3 x3 where p1: "p1 = (i3, x3)" by (cases p1)
  show ?thesis
  proof (cases "booleanOrBooleanString ''web_task'' (map_of data ''web_task'')")
    case (Inl e)
    with d p1 show ?thesis
      by (simp add: plannerOutputSchema_def Let_def booleanOrBooleanString_throws)
  next
    case w: (Inr p2)
    obtain i7 x7 where p2: "p2 = (i7, x7)" by (cases p2)
    show ?thesis
    proof (cases "i3 = [] \<and> i7 = []")
      case True
      then obtain b1 b2 where b: "coercedBoolean (map_of data ''done'') = Some b1" "x3 = JBool b1"
          "coercedBoolean (map_of data ''web_task'') = Some b2" "x7 = JBool b2"
        using d w p1 p2 booleanOrBooleanString_accepts by blast
      with d w p1 p2 True show ?thesis
        by (auto simp: plannerOutputSchema_def Let_def zodString_isStringValue stringFields_def
            plannerOutputOf_def)
    next
      case False
      have d': "booleanOrBooleanString ''done'' (map_of data ''done'') = Inr (i3, x3)"
        using d p1 by simp
      have w': "booleanOrBooleanString ''web_task'' (map_of data ''web_task'') = Inr (i7, x7)"
        using w p2 by simp
      from False have "coercedBoolean (map_of data ''done'') = None
                 \<or> coercedBoolean (map_of data ''web_task'') = None"
        using booleanOrBooleanString_issues [OF d'] booleanOrBooleanString_issues [OF w']
        by auto
      with d w p1 p2 False show ?thesis
        by (auto simp: plannerOutputSchema_def Let_def)
    qed
  qed
qed

lemma plannerOutputSchema_booleans:
  assumes "plannerOutputSchema data = Inr out"
  shows "\<exists>b1 b2. map_of out ''done'' = Some (JBool b1) \<and> map_of out ''web_task'' = Some (JBool b2)"
  using assms by (auto simp: plannerOutputSchema_accepts plannerOutputOf_def)

lemma validateModelOutput_Inr:
  "validateModelOutput schema d = Inr out \<Longrightarrow> schema d = Inr out"
  by (auto simp: validateModelOutput_def split: sum.splits)

lemma manualExtraction_output:
  assumes "manualExtraction parse schema calls st = (st', Inr out)"
  shows "\<exists>d. schema d = Inr out"
  using assms
  by (auto simp: manualExtraction_def emergencyPath_def Let_def
      split: prod.splits sum.splits llm_content.splits option.splits
      dest: validateModelOutput_Inr)





lemma invoke_structured_ok:
  "withStructuredOutput agent \<Longrightarrow> structuredInvoke calls = Inr parsed \<Longrightarrow>
   invoke parse schema calls (agent, monitor) = ((agent, monitor), Inr parsed)"
  by (simp add: invoke_def)

text \<open>
  The branch of \<open>invoke\<close> for an agent of the G4F provider whose structured call failed.
  No agent that the constructor made comes to it, as \<open>agentAfter_flag\<close> shows below.
\<close>

lemma invoke_g4f_fallback:
  "withStructuredOutput agent \<Longrightarrow> structuredInvoke calls = Inl error \<Longrightarrow> \<not> isAbortedError error \<Longrightarrow>
   provider agent = G4F \<Longrightarrow>
   invoke parse schema calls (agent, monitor)
     = manualExtraction parse schema calls (agent\<lparr>withStructuredOutput := False\<rparr>, monitor)"
  by (simp add: invoke_def)







text \<open>
  C7 (as amended). \<open>plannerOutputSchema\<close>, which the agent applies to every record
  before it returns it, accepts \<open>done\<close> and \<open>web_task\<close> as a boolean or as a string
  that spells \<open>true\<close> or \<open>false\<close> in any case of letters, and returns them as
  booleans; so every planner output the manual path returns has the two as booleans. The
  validator's own \<open>plannerSchema\<close> accepts only a boolean for \<open>done\<close>, and any
  boolean or string for \<open>web_task\<close>.
\<close>

theorem plannerOutputSchema_coerces:
  "(plannerOutputSchema data = Inr out \<longleftrightarrow>
     (list_all (\<lambda>k. isStringValue (map_of data k)) stringFields
      \<and> (\<exists>b1 b2. coercedBoolean (map_of data ''done'') = Some b1
            \<and> coercedBoolean (map_of data ''web_task'') = Some b2
            \<and> out = plannerOutputOf data b1 b2)))
   \<and> (manualExtraction parse plannerOutputSchema calls st = (st', Inr out) \<longrightarrow>
        (\<exists>b1 b2. map_of out ''done'' = Some (JBool b1) \<and> map_of out ''web_task'' = Some (JBool b2)))
   \<and> (schemaSuccess (validateAgainstSchema data Planner) \<longrightarrow>
        (\<exists>b. map_of data ''done'' = Some (JBool b))
        \<and> ((\<exists>b. map_of data ''web_task'' = Some (JBool b))
            \<or> (\<exists>s. map_of data ''web_task'' = Some (JStr s))))"
proof -
  have a: "manualExtraction parse plannerOutputSchema calls st = (st', Inr out) \<longrightarrow>
        (\<exists>b1 b2. map_of out ''done'' = Some (JBool b1) \<and> map_of out ''web_task'' = Some (JBool b2))"
    using manualExtraction_output plannerOutputSchema_booleans by blast
  have b: "schemaSuccess (validateAgainstSchema data Planner) \<longrightarrow>
        (\<exists>b. map_of data ''done'' = Some (JBool b))
        \<and> ((\<exists>b. map_of data ''web_task'' = Some (JBool b))
            \<or> (\<exists>s. map_of data ''web_task'' = Some (JStr s)))"
    by (auto simp: validate_success_planner plannerSchema_def
        dest: zodBoolean_ok zodBooleanOrString_ok)
  from a b plannerOutputSchema_accepts [of data out] show ?thesis by blast
qed

theorem plannerOutputSchema_coerces_witness:
  "plannerOutputSchema (plannerRecordWith (JStr ''TRUE'') (JStr ''False''))
     = Inr (plannerOutputOf (plannerRecordWith (JStr ''TRUE'') (JStr ''False'')) True False)
   \<and> coercedBoolean (map_of (plannerRecordWith (JStr ''TRUE'') (JStr ''False'')) ''done'')
       = Some True
   \<and> schemaSuccess (validateAgainstSchema (plannerRecordWith (JBool True) (JStr ''maybe'')) Planner)
   \<and> map_of (plannerRecordWith (JBool True) (JStr ''maybe'')) ''done'' = Some (JBool True)
   \<and> manualExtraction (parseTable []) plannerOutputSchema authFailureCalls (g4fAgent, newMonitor)
       = ((g4fAgent, newMonitor\<lparr>responseCount := 1, correctionCount := 1\<rparr>),
          Inr (plannerOutputOf (createFallbackResponse Planner ''hello'') False True))
   \<and> map_of (plannerOutputOf (createFallbackResponse Planner ''hello'') False True) ''done''
       = Some (JBool False)
   \<and> map_of (plannerOutputOf (createFallbackResponse Planner ''hello'') False True) ''web_task''
       = Some (JBool True)"
proof -
  have a: "plannerOutputSchema (plannerRecordWith (JStr ''TRUE'') (JStr ''False''))
     = Inr (plannerOutputOf (plannerRecordWith (JStr ''TRUE'') (JStr ''False'')) True False)"
    by code_simp
  have b: "coercedBoolean (map_of (plannerRecordWith (JStr ''TRUE'') (JStr ''False'')) ''done'')
       = Some True"
    by code_simp
  have c: "schemaSuccess (validateAgainstSchema (plannerRecordWith (JBool True) (JStr ''maybe'')) Planner)"
    by code_simp
  have d: "manualExtraction (parseTable []) plannerOutputSchema authFailureCalls
             (g4fAgent, newMonitor)
       = ((g4fAgent, newMonitor\<lparr>responseCount := 1, correctionCount := 1\<rparr>),
          Inr (plannerOutputOf (createFallbackResponse Planner ''hello'') False True))"
    by code_simp
  have e: "\<exists>b1 b2. map_of (plannerOutputOf (createFallbackResponse Planner ''hello'') False True)
                     ''done'' = Some (JBool b1)
                 \<and> map_of (plannerOutputOf (createFallbackResponse Planner ''hello'') False True)
                     ''web_task'' = Some (JBool b2)"
    using d
      plannerOutputSchema_coerces [of "[]"
        "plannerOutputOf (createFallbackResponse Planner ''hello'') False True"
        "parseTable []" authFailureCalls "(g4fAgent, newMonitor)"
        "(g4fAgent, newMonitor\<lparr>responseCount := 1, correctionCount := 1\<rparr>)"]
    by blast
  have f: "map_of (plannerRecordWith (JBool True) (JStr ''maybe'')) ''done'' = Some (JBool True)"
    using c
      plannerOutputSchema_coerces [of "plannerRecordWith (JBool True) (JStr ''maybe'')"
        "[]" "parseTable []" authFailureCalls "(g4fAgent, newMonitor)"
        "(g4fAgent, newMonitor)"]
    by (simp add: plannerRecordWith_def)
  from e have g: "map_of (plannerOutputOf (createFallbackResponse Planner ''hello'') False True)
                    ''done'' = Some (JBool False)
                \<and> map_of (plannerOutputOf (createFallbackResponse Planner ''hello'') False True)
                    ''web_task'' = Some (JBool True)"
    by (simp add: plannerOutputOf_def)
  from a b c d f g show ?thesis by simp
qed

text \<open>
  The validator's \<open>plannerSchema\<close> rejects \<open>done\<close> given as the string \<open>true\<close>, and
  accepts \<open>web_task\<close> given as the string \<open>maybe\<close>, which spells no boolean.
\<close>

theorem plannerSchema_no_coercion_counterexample:
  "schemaErrors (validateAgainstSchema (plannerRecordWith (JStr ''true'') (JBool True)) Planner)
     = [''done: Expected boolean, received string'']
   \<and> \<not> schemaSuccess
         (validateAgainstSchema (plannerRecordWith (JStr ''true'') (JBool True)) Planner)
   \<and> schemaSuccess (validateAgainstSchema (plannerRecordWith (JBool True) (JStr ''maybe'')) Planner)
   \<and> coercedBoolean (Some (JStr ''maybe'')) = None
   \<and> plannerOutputSchema (plannerRecordWith (JStr ''true'') (JBool True))
       = Inr (plannerOutputOf (plannerRecordWith (JStr ''true'') (JBool True)) True True)"
  by code_simp

subsection \<open>The executor\<close>

lemma shouldStop_running:
  "stoppedAtCheck env = False \<Longrightarrow> pausedAtCheck env = False \<Longrightarrow>
   shouldStop opts env ex = Some (maxFailures opts \<le> consecutiveFailures ex)"
  by (cases "pollTicks env") (auto simp: shouldStop_def)

lemma checkTaskCompletion_not_done:
  "\<not> planIsDone p \<Longrightarrow> checkTaskCompletion p ex = (ex, False)"
  by (auto simp: planIsDone_def checkTaskCompletion_def split: option.splits)

lemma checkTaskCompletion_done:
  "planIsDone p \<Longrightarrow> snd (checkTaskCompletion p ex) = True"
  by (auto simp: planIsDone_def checkTaskCompletion_def split: option.splits)

lemma runPlanner_repeat:
  assumes "repeatsPlan s env" "s \<noteq> []" "k < 3"
  shows "\<exists>out. runPlanner env (afterSteps task ident s k)
           = ((afterSteps task ident s k)
                \<lparr>plannerCalls := Suc k, lastPlannerOutput := Some s, repetitiveActionCount := k\<rparr>,
              Some out) \<and> \<not> planIsDone (Some out)"
proof -
  from assms(1) obtain out r where o: "plannerExecute env = Inr out" "out_result out = Some r"
      "plannerSignature r = s" "plan_done r = False" "stateToMemory env = None"
    by (auto simp: repeatsPlan_def split: sum.splits option.splits)
  show ?thesis
  proof (cases k)
    case 0
    with o assms(2) show ?thesis
      by (simp add: runPlanner_def afterSteps_def Let_def planIsDone_def)
  next
    case (Suc j)
    with o assms(2,3) show ?thesis
      by (simp add: runPlanner_def afterSteps_def Let_def planIsDone_def MAX_REPETITIVE_ACTIONS_def)
  qed
qed

lemma navigate_stays:
  assumes "staysOnPage env" "consecutiveFailures ex = 0"
  shows "\<exists>nd. navigate opts env ex
           = (ex\<lparr>navigatorCalls := navigatorCalls ex + 1, nSteps := nSteps ex + 1,
                  consecutiveFailures := 0\<rparr>, Inr nd)"
proof -
  from assms(1) obtain u out where o: "beforeUrl env = Inr u" "afterUrl env = Inr u"
      "navigatorExecute env = Inr out" "out_error out = None"
      "haltedBeforeCall env = False" "haltedAfterCall env = False"
    by (auto simp: staysOnPage_def split: sum.splits)
  then show ?thesis
    by (simp add: navigate_def navigateTry_def tryCatch_def Let_def)
qed

lemma isPlanningStep_every: "planningInterval opts = 1 \<Longrightarrow> isPlanningStep opts ex nd"
  by (simp add: isPlanningStep_def)

lemma loop_repeat_step:
  assumes "repeatsPlan s (envs k)" "staysOnPage (envs k)" "s \<noteq> []" "k < 3"
    and "planningInterval opts = 1" "0 < maxFailures opts"
  shows "\<exists>nd out. execLoop opts envs (Suc fuel) k nd0 latest (afterSteps task ident s k)
           = execLoop opts envs fuel (Suc k) nd (Some out) (afterSteps task ident s (Suc k))"
proof -
  let ?ex = "afterSteps task ident s k"
  have stop: "shouldStop opts (envs k) ?ex = Some False"
    using assms(1,6) by (simp add: shouldStop_running repeatsPlan_def afterSteps_def)
  obtain out where rp: "runPlanner (envs k) ?ex
           = (?ex\<lparr>plannerCalls := Suc k, lastPlannerOutput := Some s, repetitiveActionCount := k\<rparr>,
              Some out)" and nd: "\<not> planIsDone (Some out)"
    using runPlanner_repeat [OF assms(1,3,4)] by blast
  let ?ex1 = "?ex\<lparr>plannerCalls := Suc k, lastPlannerOutput := Some s, repetitiveActionCount := k\<rparr>"
  have "consecutiveFailures ?ex1 = 0" by (simp add: afterSteps_def)
  from navigate_stays [OF assms(2) this, of opts]
  obtain nd' where nav: "navigate opts (envs k) ?ex1
           = (?ex1\<lparr>navigatorCalls := navigatorCalls ?ex1 + 1, nSteps := nSteps ?ex1 + 1,
                    consecutiveFailures := 0\<rparr>, Inr nd')"
    by blast
  have st: "?ex1\<lparr>navigatorCalls := navigatorCalls ?ex1 + 1, nSteps := nSteps ?ex1 + 1,
                    consecutiveFailures := 0\<rparr> = afterSteps task ident s (Suc k)"
    by (simp add: afterSteps_def)
  have "execLoop opts envs (Suc fuel) k nd0 latest ?ex
          = execLoop opts envs fuel (Suc k) nd' (Some out) (afterSteps task ident s (Suc k))"
    using stop rp nav nd st
    by (simp add: isPlanningStep_every [OF assms(5)] checkTaskCompletion_not_done)
  then show ?thesis by blast
qed

lemma runPlanner_forced:
  assumes "repeatsPlan s env" "s \<noteq> []"
  shows "runPlanner env (afterSteps task ident s 3)
           = ((afterSteps task ident s 3)\<lparr>plannerCalls := 4, repetitiveActionCount := 3\<rparr>,
              Some \<lparr>out_result = Some forceCompletionPlan, out_error = None\<rparr>)"
proof -
  from assms(1) obtain out r where o: "plannerExecute env = Inr out" "out_result out = Some r"
      "plannerSignature r = s" "stateToMemory env = None"
    by (auto simp: repeatsPlan_def split: sum.splits option.splits)
  with assms(2) show ?thesis
    by (simp add: runPlanner_def afterSteps_def Let_def MAX_REPETITIVE_ACTIONS_def)
qed

lemma loop_forced_step:
  assumes "repeatsPlan s (envs 3)" "s \<noteq> []"
    and "planningInterval opts = 1" "0 < maxFailures opts"
  shows "execLoop opts envs (Suc fuel) 3 nd0 latest (afterSteps task ident s 3)
           = Some ((afterSteps task ident s 3)
                     \<lparr>plannerCalls := 4, repetitiveActionCount := 3,
                      finalAnswer := Some (final_answer forceCompletionPlan)\<rparr>,
                   Left 3 (Some \<lparr>out_result = Some forceCompletionPlan, out_error = None\<rparr>))"
proof -
  have stop: "shouldStop opts (envs 3) (afterSteps task ident s 3) = Some False"
    using assms(1,4) by (simp add: shouldStop_running repeatsPlan_def afterSteps_def)
  have c: "checkTaskCompletion (Some \<lparr>out_result = Some forceCompletionPlan, out_error = None\<rparr>) ex
             = (ex\<lparr>finalAnswer := Some (final_answer forceCompletionPlan)\<rparr>, True)" for ex
    by (simp add: checkTaskCompletion_def forceCompletionPlan_def)
  show ?thesis
    using stop runPlanner_forced [OF assms(1,2), of task ident]
    by (simp add: isPlanningStep_every [OF assms(3)] c)
qed

theorem four_identical_plans_complete:
  assumes "s \<noteq> []" "planningInterval opts = 1" "0 < maxFailures opts" "4 \<le> maxSteps opts"
    and "\<And>k. k < 4 \<Longrightarrow> repeatsPlan s (envs k)"
    and "\<And>k. k < 3 \<Longrightarrow> staysOnPage (envs k)"
  shows "execute opts envs stoppedAtEnd (newExecutor task ident)
           = Some ((afterSteps task ident s 3)
                     \<lparr>plannerCalls := 4, repetitiveActionCount := 3,
                      finalAnswer := Some ''Task stopped to prevent infinite execution loop'',
                      events := [(TASK_START, ident),
                                 (TASK_OK, ''Task stopped to prevent infinite execution loop'')]\<rparr>)"
proof -
  define fuel where "fuel = maxSteps opts - 4"
  have f: "maxSteps opts = Suc (Suc (Suc (Suc fuel)))"
    using assms(4) unfolding fuel_def by arith
  have start: "emitEvent TASK_START (taskId (newExecutor task ident))
                 ((newExecutor task ident)\<lparr>nSteps := 0\<rparr>) = afterSteps task ident s 0"
    by (simp add: emitEvent_def newExecutor_def afterSteps_def)
  have r0: "repeatsPlan s (envs 0)" and r1: "repeatsPlan s (envs (Suc 0))"
    and r2: "repeatsPlan s (envs (Suc (Suc 0)))" and r3: "repeatsPlan s (envs 3)"
    using assms(5) by simp_all
  have p0: "staysOnPage (envs 0)" and p1: "staysOnPage (envs (Suc 0))"
    and p2: "staysOnPage (envs (Suc (Suc 0)))"
    using assms(6) by simp_all
  have k0: "(0::nat) < 3" and k1: "Suc 0 < 3" and k2: "Suc (Suc 0) < 3" by simp_all
  obtain nd1 out1 where s1: "execLoop opts envs (Suc (Suc (Suc (Suc fuel)))) 0 False None (afterSteps task ident s 0)
       = execLoop opts envs (Suc (Suc (Suc fuel))) (Suc 0) nd1 (Some out1) (afterSteps task ident s (Suc 0))"
    using loop_repeat_step [where envs = envs and k = 0, OF r0 p0 assms(1) k0 assms(2,3)] by blast
  obtain nd2 out2 where s2: "execLoop opts envs (Suc (Suc (Suc fuel))) (Suc 0) nd1 (Some out1) (afterSteps task ident s (Suc 0))
       = execLoop opts envs (Suc (Suc fuel)) (Suc (Suc 0)) nd2 (Some out2) (afterSteps task ident s (Suc (Suc 0)))"
    using loop_repeat_step [where envs = envs and k = "Suc 0", OF r1 p1 assms(1) k1 assms(2,3)] by blast
  obtain nd3 out3 where s3: "execLoop opts envs (Suc (Suc fuel)) (Suc (Suc 0)) nd2 (Some out2) (afterSteps task ident s (Suc (Suc 0)))
       = execLoop opts envs (Suc fuel) (Suc (Suc (Suc 0))) nd3 (Some out3) (afterSteps task ident s (Suc (Suc (Suc 0))))"
    using loop_repeat_step [where envs = envs and k = "Suc (Suc 0)", OF r2 p2 assms(1) k2 assms(2,3)] by blast
  have three: "Suc (Suc (Suc 0)) = 3" by simp
  have s4: "execLoop opts envs (Suc fuel) 3 nd3 (Some out3) (afterSteps task ident s 3)
           = Some ((afterSteps task ident s 3)
                     \<lparr>plannerCalls := 4, repetitiveActionCount := 3,
                      finalAnswer := Some (final_answer forceCompletionPlan)\<rparr>,
                   Left 3 (Some \<lparr>out_result = Some forceCompletionPlan, out_error = None\<rparr>))"
    by (rule loop_forced_step [where envs = envs, OF r3 assms(1,2,3)])
  have loop: "execLoop opts envs (maxSteps opts) 0 False None (afterSteps task ident s 0)
           = Some ((afterSteps task ident s 3)
                     \<lparr>plannerCalls := 4, repetitiveActionCount := 3,
                      finalAnswer := Some (final_answer forceCompletionPlan)\<rparr>,
                   Left 3 (Some \<lparr>out_result = Some forceCompletionPlan, out_error = None\<rparr>))"
    unfolding f using s1 s2 s3 s4 by (simp only: three)
  show ?thesis
    unfolding execute_def Let_def start loop
    by (simp add: planIsDone_def forceCompletionPlan_def emitEvent_def afterSteps_def)
qed

lemma runPlanner_guard:
  assumes "plannerExecute env = Inr planOutput" "out_result planOutput = Some r"
    "plannerSignature r \<noteq> []" "stateToMemory env = None"
  shows "runPlanner env ex
           = (if lastPlannerOutput ex = Some (plannerSignature r) then
                (if 3 \<le> repetitiveActionCount ex + 1 then
                   (ex\<lparr>plannerCalls := plannerCalls ex + 1,
                       repetitiveActionCount := repetitiveActionCount ex + 1\<rparr>,
                    Some \<lparr>out_result = Some forceCompletionPlan, out_error = None\<rparr>)
                 else
                   (ex\<lparr>plannerCalls := plannerCalls ex + 1,
                       repetitiveActionCount := repetitiveActionCount ex + 1\<rparr>,
                    Some planOutput))
              else
                (ex\<lparr>plannerCalls := plannerCalls ex + 1, repetitiveActionCount := 0,
                    lastPlannerOutput := Some (plannerSignature r)\<rparr>,
                 Some planOutput))"
  using assms
  by (auto simp: runPlanner_def Let_def MAX_REPETITIVE_ACTIONS_def)

text \<open>
  C3 (as amended). A planner call whose signature (its \<open>next_steps\<close>, or else its
  \<open>observation\<close>) is not empty and equals the stored one adds one to
  \<open>repetitiveActionCount\<close>, and when the count reaches three \<open>runPlanner\<close> returns,
  in place of the planner's output, a plan with \<open>done\<close> true, the observation
  \<open>Detected repetitive behavior - completing task to prevent infinite loop\<close> and the
  final answer \<open>Task stopped to prevent infinite execution loop\<close>; a call with another
  signature sets the count to zero and stores the signature. So a run that plans at every
  step and gets four plans in a row with the same signature, the navigator staying on the
  same page, is completed at the fourth planner call, with three navigator calls made and
  no fifth planner call.
\<close>

theorem repetition_guard:
  "(plannerExecute env = Inr planOutput \<and> out_result planOutput = Some r
      \<and> plannerSignature r \<noteq> [] \<and> stateToMemory env = None \<longrightarrow>
      runPlanner env ex
        = (if lastPlannerOutput ex = Some (plannerSignature r) then
             (if 3 \<le> repetitiveActionCount ex + 1 then
                (ex\<lparr>plannerCalls := plannerCalls ex + 1,
                    repetitiveActionCount := repetitiveActionCount ex + 1\<rparr>,
                 Some \<lparr>out_result = Some forceCompletionPlan, out_error = None\<rparr>)
              else
                (ex\<lparr>plannerCalls := plannerCalls ex + 1,
                    repetitiveActionCount := repetitiveActionCount ex + 1\<rparr>,
                 Some planOutput))
           else
             (ex\<lparr>plannerCalls := plannerCalls ex + 1, repetitiveActionCount := 0,
                 lastPlannerOutput := Some (plannerSignature r)\<rparr>,
              Some planOutput)))
   \<and> plan_done forceCompletionPlan
   \<and> observation forceCompletionPlan
       = ''Detected repetitive behavior - completing task to prevent infinite loop''
   \<and> final_answer forceCompletionPlan = ''Task stopped to prevent infinite execution loop''
   \<and> (s \<noteq> [] \<and> planningInterval opts = 1 \<and> 0 < maxFailures opts \<and> 4 \<le> maxSteps opts
        \<and> (\<forall>k<4. repeatsPlan s (envs k)) \<and> (\<forall>k<3. staysOnPage (envs k)) \<longrightarrow>
        execute opts envs stoppedAtEnd (newExecutor task ident)
          = Some ((afterSteps task ident s 3)
                    \<lparr>plannerCalls := 4, repetitiveActionCount := 3,
                     finalAnswer := Some ''Task stopped to prevent infinite execution loop'',
                     events := [(TASK_START, ident),
                                (TASK_OK, ''Task stopped to prevent infinite execution loop'')]\<rparr>))"
proof -
  have a: "plannerExecute env = Inr planOutput \<and> out_result planOutput = Some r
      \<and> plannerSignature r \<noteq> [] \<and> stateToMemory env = None \<longrightarrow>
      runPlanner env ex
        = (if lastPlannerOutput ex = Some (plannerSignature r) then
             (if 3 \<le> repetitiveActionCount ex + 1 then
                (ex\<lparr>plannerCalls := plannerCalls ex + 1,
                    repetitiveActionCount := repetitiveActionCount ex + 1\<rparr>,
                 Some \<lparr>out_result = Some forceCompletionPlan, out_error = None\<rparr>)
              else
                (ex\<lparr>plannerCalls := plannerCalls ex + 1,
                    repetitiveActionCount := repetitiveActionCount ex + 1\<rparr>,
                 Some planOutput))
           else
             (ex\<lparr>plannerCalls := plannerCalls ex + 1, repetitiveActionCount := 0,
                 lastPlannerOutput := Some (plannerSignature r)\<rparr>,
              Some planOutput))"
    using runPlanner_guard by blast
  have b: "plan_done forceCompletionPlan
   \<and> observation forceCompletionPlan
       = ''Detected repetitive behavior - completing task to prevent infinite loop''
   \<and> final_answer forceCompletionPlan = ''Task stopped to prevent infinite execution loop''"
    by (simp add: forceCompletionPlan_def)
  have c: "s \<noteq> [] \<and> planningInterval opts = 1 \<and> 0 < maxFailures opts \<and> 4 \<le> maxSteps opts
        \<and> (\<forall>k<4. repeatsPlan s (envs k)) \<and> (\<forall>k<3. staysOnPage (envs k)) \<longrightarrow>
        execute opts envs stoppedAtEnd (newExecutor task ident)
          = Some ((afterSteps task ident s 3)
                    \<lparr>plannerCalls := 4, repetitiveActionCount := 3,
                     finalAnswer := Some ''Task stopped to prevent infinite execution loop'',
                     events := [(TASK_START, ident),
                                (TASK_OK, ''Task stopped to prevent infinite execution loop'')]\<rparr>)"
    using four_identical_plans_complete [where envs = envs] by blast
  from a b c show ?thesis by blast
qed

theorem repetition_guard_witness:
  "planningInterval (optionsWith 10) = 1 \<and> 0 < maxFailures (optionsWith 10)
   \<and> 4 \<le> maxSteps (optionsWith 10)
   \<and> repeatsPlan ''Click the search button'' (repeatingEnv 0)
   \<and> staysOnPage (repeatingEnv 0)
   \<and> execute (optionsWith 10) repeatingEnv False (newExecutor ''task'' ''id1'')
       = Some \<lparr>taskId = ''id1'', tasks = [''task''],
               lastPlannerOutput = Some ''Click the search button'',
               repetitiveActionCount = 3, nSteps = 3, consecutiveFailures = 0,
               finalAnswer = Some ''Task stopped to prevent infinite execution loop'',
               events = [(TASK_START, ''id1''),
                         (TASK_OK, ''Task stopped to prevent infinite execution loop'')],
               plannerCalls = 4, navigatorCalls = 3\<rparr>"
proof -
  have o: "planningInterval (optionsWith 10) = 1 \<and> 0 < maxFailures (optionsWith 10)
           \<and> 4 \<le> maxSteps (optionsWith 10)"
    by (simp add: optionsWith_def)
  have r: "repeatsPlan ''Click the search button'' (repeatingEnv k)" for k
    by (simp add: repeatsPlan_def repeatingEnv_def samePlan_def plannerSignature_def)
  have p: "staysOnPage (repeatingEnv k)" for k
    by (simp add: staysOnPage_def repeatingEnv_def)
  have n: "''Click the search button'' \<noteq> []" by simp
  show ?thesis
    using o r p n
      repetition_guard [where s = "''Click the search button''" and opts = "optionsWith 10"
        and envs = repeatingEnv and stoppedAtEnd = False and task = "''task''"
        and ident = "''id1''"]
    by (simp add: afterSteps_def)
qed

text \<open>
  Three plans in a row with the same signature do not complete the run: with three steps
  allowed the run fails for the step bound, the count at two; with ten steps allowed the
  planner is called a fourth time.
\<close>

theorem three_identical_plans_counterexample:
  "plannerExecute (repeatingEnv 0) = Inr samePlan
   \<and> plannerExecute (repeatingEnv 1) = Inr samePlan
   \<and> plannerExecute (repeatingEnv 2) = Inr samePlan
   \<and> execute (optionsWith 3) repeatingEnv False (newExecutor ''task'' ''id1'')
       = Some \<lparr>taskId = ''id1'', tasks = [''task''],
               lastPlannerOutput = Some ''Click the search button'',
               repetitiveActionCount = 2, nSteps = 3, consecutiveFailures = 0,
               finalAnswer = None,
               events = [(TASK_START, ''id1''), (TASK_FAIL, ''exec_errors_maxStepsReached'')],
               plannerCalls = 3, navigatorCalls = 3\<rparr>
   \<and> map_option plannerCalls
         (execute (optionsWith 10) repeatingEnv False (newExecutor ''task'' ''id1'')) = Some 4"
  by code_simp











subsection \<open>When the repaired record satisfies the schema\<close>

text \<open>
  The repairer gives every required field that is absent its default and leaves every
  field that is present as it is. Its result satisfies the schema of the role exactly
  when every required field of the input is absent or valid.
\<close>

lemma js_or_absent: "js_or None d = d"
  by (simp add: js_or_def)

lemma js_nullish_absent: "js_nullish None d = d"
  by (simp add: js_nullish_def)

lemma spread_read:
  "map_of (spread tgt src) k = (case map_of src k of Some v \<Rightarrow> Some v | None \<Rightarrow> map_of tgt k)"
  by (simp add: map_of_spread map_add_def)

lemma fix_planner_observation:
  "map_of (fixInvalidJSON data Planner) ''observation''
     = Some (case map_of data ''observation'' of Some v \<Rightarrow> v | None \<Rightarrow> JStr ''AI response received but incomplete'')"
  by (simp add: fixInvalidJSON_def spread_read js_or_absent split: option.splits)

lemma fix_planner_observation_ok:
  "zodString ''observation'' (map_of (fixInvalidJSON data Planner) ''observation'') = []
     \<longleftrightarrow> map_of data ''observation'' = None \<or> zodString ''observation'' (map_of data ''observation'') = []"
  unfolding fix_planner_observation by (cases "map_of data ''observation''") simp_all

lemma fix_planner_done:
  "map_of (fixInvalidJSON data Planner) ''done''
     = Some (case map_of data ''done'' of Some v \<Rightarrow> v | None \<Rightarrow> JBool False)"
  by (simp add: fixInvalidJSON_def spread_read js_nullish_absent split: option.splits)

lemma fix_planner_done_ok:
  "zodBoolean ''done'' (map_of (fixInvalidJSON data Planner) ''done'') = []
     \<longleftrightarrow> map_of data ''done'' = None \<or> zodBoolean ''done'' (map_of data ''done'') = []"
  unfolding fix_planner_done by (cases "map_of data ''done''") simp_all

lemma fix_planner_challenges:
  "map_of (fixInvalidJSON data Planner) ''challenges''
     = Some (case map_of data ''challenges'' of Some v \<Rightarrow> v | None \<Rightarrow> JStr [])"
  by (simp add: fixInvalidJSON_def spread_read js_or_absent split: option.splits)

lemma fix_planner_challenges_ok:
  "zodString ''challenges'' (map_of (fixInvalidJSON data Planner) ''challenges'') = []
     \<longleftrightarrow> map_of data ''challenges'' = None \<or> zodString ''challenges'' (map_of data ''challenges'') = []"
  unfolding fix_planner_challenges by (cases "map_of data ''challenges''") simp_all

lemma fix_planner_next_steps:
  "map_of (fixInvalidJSON data Planner) ''next_steps''
     = Some (case map_of data ''next_steps'' of Some v \<Rightarrow> v | None \<Rightarrow> JStr ''Continue with task execution'')"
  by (simp add: fixInvalidJSON_def spread_read js_or_absent split: option.splits)

lemma fix_planner_next_steps_ok:
  "zodString ''next_steps'' (map_of (fixInvalidJSON data Planner) ''next_steps'') = []
     \<longleftrightarrow> map_of data ''next_steps'' = None \<or> zodString ''next_steps'' (map_of data ''next_steps'') = []"
  unfolding fix_planner_next_steps by (cases "map_of data ''next_steps''") simp_all

lemma fix_planner_final_answer:
  "map_of (fixInvalidJSON data Planner) ''final_answer''
     = Some (case map_of data ''final_answer'' of Some v \<Rightarrow> v | None \<Rightarrow> JStr [])"
  by (simp add: fixInvalidJSON_def spread_read js_or_absent split: option.splits)

lemma fix_planner_final_answer_ok:
  "zodStringNullable ''final_answer'' (map_of (fixInvalidJSON data Planner) ''final_answer'') = []
     \<longleftrightarrow> map_of data ''final_answer'' = None \<or> zodStringNullable ''final_answer'' (map_of data ''final_answer'') = []"
  unfolding fix_planner_final_answer by (cases "map_of data ''final_answer''") simp_all

lemma fix_planner_reasoning:
  "map_of (fixInvalidJSON data Planner) ''reasoning''
     = Some (case map_of data ''reasoning'' of Some v \<Rightarrow> v | None \<Rightarrow> JStr ''Processing user request'')"
  by (simp add: fixInvalidJSON_def spread_read js_or_absent split: option.splits)

lemma fix_planner_reasoning_ok:
  "zodString ''reasoning'' (map_of (fixInvalidJSON data Planner) ''reasoning'') = []
     \<longleftrightarrow> map_of data ''reasoning'' = None \<or> zodString ''reasoning'' (map_of data ''reasoning'') = []"
  unfolding fix_planner_reasoning by (cases "map_of data ''reasoning''") simp_all

lemma fix_planner_web_task:
  "map_of (fixInvalidJSON data Planner) ''web_task''
     = Some (case map_of data ''web_task'' of Some v \<Rightarrow> v | None \<Rightarrow> JBool True)"
  by (simp add: fixInvalidJSON_def spread_read js_nullish_absent split: option.splits)

lemma fix_planner_web_task_ok:
  "zodBooleanOrString ''web_task'' (map_of (fixInvalidJSON data Planner) ''web_task'') = []
     \<longleftrightarrow> map_of data ''web_task'' = None \<or> zodBooleanOrString ''web_task'' (map_of data ''web_task'') = []"
  unfolding fix_planner_web_task by (cases "map_of data ''web_task''") simp_all

lemma fix_navigator_current_state:
  "map_of (fixInvalidJSON data Navigator) ''current_state''
     = Some (case map_of data ''current_state'' of
               Some v \<Rightarrow> v
             | None \<Rightarrow>
                 JObj [(''evaluation_previous_goal'', JStr ''Unknown - processing request''),
                       (''memory'', JStr ''Received AI response''),
                       (''next_goal'', JStr ''Continue task execution'')])"
  by (simp add: fixInvalidJSON_def spread_read js_or_absent split: option.splits)

lemma fix_navigator_action:
  "map_of (fixInvalidJSON data Navigator) ''action''
     = Some (case map_of data ''action'' of
               Some v \<Rightarrow> v
             | None \<Rightarrow>
                 JArr [defaultGoToUrl ''Navigate to requested website''
                         ''https://www.google.com''])"
  by (simp add: fixInvalidJSON_def spread_read js_or_absent split: option.splits)

lemma fix_navigator_current_state_ok:
  "agentBrainSchema ''current_state'' (map_of (fixInvalidJSON data Navigator) ''current_state'') = []
     \<longleftrightarrow> map_of data ''current_state'' = None
          \<or> agentBrainSchema ''current_state'' (map_of data ''current_state'') = []"
  unfolding fix_navigator_current_state by (cases "map_of data ''current_state''") simp_all

lemma fix_navigator_action_ok:
  "zodArrayOfRecords ''action'' (map_of (fixInvalidJSON data Navigator) ''action'') = []
     \<longleftrightarrow> map_of data ''action'' = None
          \<or> zodArrayOfRecords ''action'' (map_of data ''action'') = []"
  unfolding fix_navigator_action
  by (cases "map_of data ''action''") (simp_all add: defaultGoToUrl_def)

lemma fixInvalidJSON_planner_valid_iff:
  "schemaSuccess (validateAgainstSchema (fixInvalidJSON data Planner) Planner) \<longleftrightarrow>
     (map_of data ''observation'' = None \<or> zodString ''observation'' (map_of data ''observation'') = [])
   \<and> (map_of data ''done'' = None \<or> zodBoolean ''done'' (map_of data ''done'') = [])
   \<and> (map_of data ''challenges'' = None \<or> zodString ''challenges'' (map_of data ''challenges'') = [])
   \<and> (map_of data ''next_steps'' = None \<or> zodString ''next_steps'' (map_of data ''next_steps'') = [])
   \<and> (map_of data ''final_answer'' = None
        \<or> zodStringNullable ''final_answer'' (map_of data ''final_answer'') = [])
   \<and> (map_of data ''reasoning'' = None \<or> zodString ''reasoning'' (map_of data ''reasoning'') = [])
   \<and> (map_of data ''web_task'' = None
        \<or> zodBooleanOrString ''web_task'' (map_of data ''web_task'') = [])"
  unfolding validate_success_planner plannerSchema_def append_is_Nil_conv
    fix_planner_observation_ok fix_planner_done_ok fix_planner_challenges_ok
    fix_planner_next_steps_ok fix_planner_final_answer_ok fix_planner_reasoning_ok
    fix_planner_web_task_ok
  by (rule refl)

lemma fixInvalidJSON_navigator_valid_iff:
  "schemaSuccess (validateAgainstSchema (fixInvalidJSON data Navigator) Navigator) \<longleftrightarrow>
     (map_of data ''current_state'' = None
      \<or> agentBrainSchema ''current_state'' (map_of data ''current_state'') = [])
   \<and> (map_of data ''action'' = None
      \<or> zodArrayOfRecords ''action'' (map_of data ''action'') = [])"
  unfolding validate_success_navigator navigatorSchema_def append_is_Nil_conv
    fix_navigator_current_state_ok fix_navigator_action_ok
  by (rule refl)

end
